theory Spec2Isabelle
  imports Main "HOL-Library.Sublist"
begin

section \<open>The map-reduce summarisation notebook\<close>

text \<open>
  The program is the notebook \<^verbatim>\<open>Demo: Summarizing PDFs with Map-Reduce Technique\<close>:
  a settings cell, the Map-Step loop, the cell that joins and cleans the map summaries,
  and the Reduce-Step cell. The notebook's global variables are a record that every cell
  takes and returns; an exception is a value; the two library functions the cells call
  (\<^verbatim>\<open>build_prompt\<close> and \<^verbatim>\<open>get_chat_response\<close>) and the two prompt templates are
  imported from modules that are not part of the notebook and are parameters of the model.
\<close>

subsection \<open>Python strings: join and replace\<close>

abbreviation NL :: char where
  "NL \<equiv> CHR 0x0A"

text \<open>\<^verbatim>\<open>sep.join(xs)\<close>\<close>

fun py_join :: "string \<Rightarrow> string list \<Rightarrow> string" where
  "py_join sep [] = []"
| "py_join sep [x] = x"
| "py_join sep (x # y # ys) = x @ sep @ py_join sep (y # ys)"

text \<open>
  \<^verbatim>\<open>s.replace(old, new)\<close> for a non-empty \<^verbatim>\<open>old\<close>, given as its first character and
  the rest: the string is scanned from the left, an occurrence of \<^verbatim>\<open>old\<close> at the
  current position is replaced and skipped whole (occurrences do not overlap), any other
  character is copied.
\<close>

fun replace_scan :: "char \<Rightarrow> string \<Rightarrow> string \<Rightarrow> string \<Rightarrow> string" where
  "replace_scan a as new [] = []"
| "replace_scan a as new (c # cs) =
     (if prefix (a # as) (c # cs)
      then new @ replace_scan a as new (drop (length as) cs)
      else c # replace_scan a as new cs)"

text \<open>
  \<^verbatim>\<open>s.replace(old, new)\<close>. With an empty \<^verbatim>\<open>old\<close> Python puts \<^verbatim>\<open>new\<close> before
  every character and at the end.
\<close>

definition py_replace :: "string \<Rightarrow> string \<Rightarrow> string \<Rightarrow> string" where
  "py_replace s old new =
     (case old of
        [] \<Rightarrow> new @ concat (map (\<lambda>c. c # new) s)
      | a # as \<Rightarrow> replace_scan a as new s)"

text \<open>
  The cell that prepares the reduce step:
  \<^verbatim>\<open>
  string = "\n".join(map_summaries)
  text = string.replace("\n\n", "") # clean potential double newlines in joined map summaries
  \<close>
\<close>

definition reduce_text :: "string list \<Rightarrow> string" where
  "reduce_text map_summaries = py_replace (py_join [NL] map_summaries) [NL, NL] []"

text \<open>
  The cleaning as the specification words it: one pass from the left in which each
  occurrence of two newlines in a row is replaced by the empty string.
\<close>

fun drop_double_newlines :: "string \<Rightarrow> string" where
  "drop_double_newlines [] = []"
| "drop_double_newlines [c] = [c]"
| "drop_double_newlines (c # d # cs) =
     (if c = NL \<and> d = NL then drop_double_newlines cs
      else c # drop_double_newlines (d # cs))"

text \<open>Two newlines in a row somewhere in the string.\<close>

fun has_double_newline :: "string \<Rightarrow> bool" where
  "has_double_newline (c # d # cs) = ((c = NL \<and> d = NL) \<or> has_double_newline (d # cs))"
| "has_double_newline _ = False"

subsection \<open>Values, exceptions and the imported functions\<close>

text \<open>
  The exceptions the cells can meet. Every one of them is a subclass of
  \<^verbatim>\<open>Exception\<close>, so \<^verbatim>\<open>except Exception\<close> catches it. \<^verbatim>\<open>NameError\<close> carries the
  name that is not bound, \<^verbatim>\<open>KeyError\<close> the missing key, the other two the detail
  given by the function that raised it.
\<close>

datatype pyexn =
    NameError string
  | KeyError string
  | TemplateError string
  | ProviderError string

text \<open>
  The values passed to \<^verbatim>\<open>build_prompt\<close> as keyword arguments: the notebook passes
  strings (\<^verbatim>\<open>text\<close>) and integers (\<^verbatim>\<open>max_words\<close>).
\<close>

datatype arg = TextArg string | IntArg int

text \<open>The Python values that are logged or stored in the output dictionary.\<close>

datatype pyval =
    PStr string
  | PInt int
  | PStrList "string list"
  | PExn pyexn

text \<open>
  The arguments of one call of \<^verbatim>\<open>get_chat_response\<close>. Both call sites pass the prompt,
  \<^verbatim>\<open>sys_message\<close> and \<^verbatim>\<open>model\<close>; only the reduce step passes \<^verbatim>\<open>max_tokens\<close>.
\<close>

record request =
  prompt :: string
  sys_message :: string
  model :: string
  max_tokens :: "int option"

type_synonym reply = "pyexn + string"

type_synonym call = "request \<times> reply"

text \<open>
  What the notebook imports. \<^verbatim>\<open>build_prompt(template, **kwargs)\<close> returns the prompt or
  raises. \<^verbatim>\<open>get_chat_response\<close> is a remote service: its reply (the generated text, or
  the exception it raises) may depend on the calls made before, which it is given here as
  its first argument. The two templates are constants of the module
  \<^verbatim>\<open>genaipy.prompts.generate_summaries\<close>.
\<close>

record env =
  build_prompt :: "string \<Rightarrow> (string \<times> arg) list \<Rightarrow> pyexn + string"
  get_chat_response :: "call list \<Rightarrow> request \<Rightarrow> reply"
  SUMMARY_PROMPT_TPL :: string
  REDUCE_SUMMARY_PROMPT_TPL :: string

subsection \<open>The settings cell\<close>

definition MAP_LLM :: string where
  "MAP_LLM = ''gpt-3.5-turbo''"

definition REDUCE_LLM :: string where
  "REDUCE_LLM = ''gpt-4-1106-preview''"

definition SYS_MESSAGE :: string where
  "SYS_MESSAGE = ''You are a generative AI expert. You explain complex AI concepts in simple language so regular users can understand your answers.''"

definition MAP_MAX_WORDS :: int where
  "MAP_MAX_WORDS = 150"

definition REDUCE_MAX_WORDS :: int where
  "REDUCE_MAX_WORDS = 300"

subsection \<open>The notebook's state\<close>

datatype level = INFO | ERROR

text \<open>A call of \<^verbatim>\<open>logging.info\<close> or \<^verbatim>\<open>logging.error\<close>: level, format string, arguments.\<close>

datatype log_record = LogRecord (lvl: level) (fmt: string) (args: "pyval list")

text \<open>
  The global variables that a later statement reads, and what the cells send out: the log
  records, the printed lines and the calls of the completion service with their replies.
  The log holds the records of the cells' own calls of \<^verbatim>\<open>logging.info\<close> and
  \<^verbatim>\<open>logging.error\<close>; what \<^verbatim>\<open>get_chat_response\<close> logs on its own is not part of it.
  \<open>None\<close> is a name that is not bound. \<^verbatim>\<open>map_summaries\<close> is bound by the first
  statement of the Map-Step cell, before anything reads it, so the state holds its value.
  The variables \<^verbatim>\<open>text\<close> and \<^verbatim>\<open>output\<close> are the fields \<open>text_var\<close> and
  \<open>output_var\<close>. Variables that are only read by the
  statement after their assignment (\<^verbatim>\<open>map_prompt\<close>, \<^verbatim>\<open>reduce_prompt\<close>, \<^verbatim>\<open>string\<close>)
  are not part of the state.
\<close>

record nb_state =
  map_summaries :: "string list"
  summary :: "string option"
  text_var :: "string option"
  final_summary :: "string option"
  output_var :: "(string \<times> pyval) list option"
  logged :: "log_record list"
  printed :: "string list"
  calls :: "call list"

text \<open>
  The state of a new kernel right after the Map-Step cell has run on no pages:
  \<^verbatim>\<open>map_summaries\<close> is the empty list and no other variable is bound.
\<close>

definition fresh :: nb_state where
  "fresh = \<lparr>map_summaries = [], summary = None, text_var = None, final_summary = None,
     output_var = None, logged = [], printed = [], calls = []\<rparr>"

text \<open>
  The result of running a piece of code: the exception that left it, if any, and the
  state it leaves behind.
\<close>

type_synonym result = "pyexn option \<times> nb_state"

text \<open>\<^verbatim>\<open>d[k]\<close> on a dictionary with string keys.\<close>

definition py_getitem :: "(string \<times> 'v) list \<Rightarrow> string \<Rightarrow> pyexn + 'v" where
  "py_getitem d k = (case map_of d k of None \<Rightarrow> Inl (KeyError k) | Some v \<Rightarrow> Inr v)"

subsection \<open>The Map-Step cell\<close>

text \<open>
  \<^verbatim>\<open>
  map_summaries = []
  for page in tqdm(pages, desc="Generating Map Summaries"):
      try:
          map_prompt = build_prompt(template=SUMMARY_PROMPT_TPL, text=pages[page]["content"], max_words=MAP_MAX_WORDS)
          summary = get_chat_response(map_prompt, sys_message= SYS_MESSAGE, model=MAP_LLM)
          map_summaries.append(summary)
          logging.info("Map Summary #%d: %s", page, summary)
      except Exception as e:
          logging.error("An error occured while generating summary #%d: %s", page, summary)
  \<close>
  \<^verbatim>\<open>pages\<close> is a dictionary from page numbers to dictionaries; the loop visits its keys
  in insertion order and reads \<^verbatim>\<open>pages[page]\<close>, so the model is given the items
  \<open>(page, pages[page])\<close> in that order.
\<close>

type_synonym pages = "(int \<times> (string \<times> string) list) list"

definition map_request :: "string \<Rightarrow> request" where
  "map_request p =
     \<lparr>prompt = p, sys_message = SYS_MESSAGE, model = MAP_LLM, max_tokens = None\<rparr>"

text \<open>The first statement of the \<^verbatim>\<open>try\<close>: the prompt for one page, or the exception.\<close>

definition map_prompt :: "env \<Rightarrow> (string \<times> string) list \<Rightarrow> pyexn + string" where
  "map_prompt env entry =
     (case py_getitem entry ''content'' of
        Inl e \<Rightarrow> Inl e
      | Inr content \<Rightarrow>
          build_prompt env (SUMMARY_PROMPT_TPL env)
            [(''text'', TextArg content), (''max_words'', IntArg MAP_MAX_WORDS)])"

text \<open>The body of the \<^verbatim>\<open>try\<close>, up to the exception that leaves it.\<close>

definition map_try :: "env \<Rightarrow> int \<Rightarrow> (string \<times> string) list \<Rightarrow> nb_state \<Rightarrow> result" where
  "map_try env page entry s =
     (case map_prompt env entry of
        Inl e \<Rightarrow> (Some e, s)
      | Inr p \<Rightarrow>
          (let req = map_request p;
               rep = get_chat_response env (calls s) req;
               s1 = s\<lparr>calls := calls s @ [(req, rep)]\<rparr>
           in case rep of
                Inl e \<Rightarrow> (Some e, s1)
              | Inr r \<Rightarrow>
                  (None, s1\<lparr>summary := Some r,
                            map_summaries := map_summaries s1 @ [r],
                            logged := logged s1 @
                              [LogRecord INFO ''Map Summary #%d: %s'' [PInt page, PStr r]]\<rparr>)))"

text \<open>
  One iteration: the \<^verbatim>\<open>try\<close> and its handler. The handler reads the variable
  \<^verbatim>\<open>summary\<close>, not the exception \<^verbatim>\<open>e\<close>; reading a name that is not bound raises
  \<^verbatim>\<open>NameError\<close>, which nothing catches.
\<close>

definition map_step :: "env \<Rightarrow> int \<times> (string \<times> string) list \<Rightarrow> nb_state \<Rightarrow> result" where
  "map_step env item s =
     (case map_try env (fst item) (snd item) s of
        (None, s') \<Rightarrow> (None, s')
      | (Some e, s') \<Rightarrow>
          (case summary s' of
             None \<Rightarrow> (Some (NameError ''summary''), s')
           | Some v \<Rightarrow>
               (None, s'\<lparr>logged := logged s' @
                  [LogRecord ERROR ''An error occured while generating summary #%d: %s''
                     [PInt (fst item), PStr v]]\<rparr>)))"

fun map_loop :: "env \<Rightarrow> pages \<Rightarrow> nb_state \<Rightarrow> result" where
  "map_loop env [] s = (None, s)"
| "map_loop env (item # rest) s =
     (case map_step env item s of
        (Some e, s') \<Rightarrow> (Some e, s')
      | (None, s') \<Rightarrow> map_loop env rest s')"

definition map_cell :: "env \<Rightarrow> pages \<Rightarrow> nb_state \<Rightarrow> result" where
  "map_cell env pages s = map_loop env pages (s\<lparr>map_summaries := []\<rparr>)"

subsection \<open>The Reduce-Step cells\<close>

text \<open>
  \<^verbatim>\<open>
  string = "\n".join(map_summaries)
  text = string.replace("\n\n", "") # clean potential double newlines in joined map summaries
  print(text)
  \<close>
\<close>

definition join_cell :: "nb_state \<Rightarrow> nb_state" where
  "join_cell s =
     (let t = reduce_text (map_summaries s)
      in s\<lparr>text_var := Some t, printed := printed s @ [t]\<rparr>)"

text \<open>
  \<^verbatim>\<open>
  try:
      reduce_prompt = build_prompt(template=REDUCE_SUMMARY_PROMPT_TPL, text=text, max_words=REDUCE_MAX_WORDS)
      final_summary = get_chat_response(prompt=reduce_prompt, sys_message=SYS_MESSAGE, model=REDUCE_LLM, max_tokens=1024)
      logging.info("Final Reduce Summary:\n%s", final_summary)
  except Exception as e:
      logging.error("An error occured while generating final summary: %s", e)
  else:
      output = {"final_summary": final_summary, "map_summaries": map_summaries}
  \<close>
\<close>

definition reduce_request :: "string \<Rightarrow> request" where
  "reduce_request p =
     \<lparr>prompt = p, sys_message = SYS_MESSAGE, model = REDUCE_LLM,
      max_tokens = Some 1024\<rparr>"

definition reduce_prompt :: "env \<Rightarrow> nb_state \<Rightarrow> pyexn + string" where
  "reduce_prompt env s =
     (case text_var s of
        None \<Rightarrow> Inl (NameError ''text'')
      | Some t \<Rightarrow>
          build_prompt env (REDUCE_SUMMARY_PROMPT_TPL env)
            [(''text'', TextArg t), (''max_words'', IntArg REDUCE_MAX_WORDS)])"

definition reduce_try :: "env \<Rightarrow> nb_state \<Rightarrow> result" where
  "reduce_try env s =
     (case reduce_prompt env s of
        Inl e \<Rightarrow> (Some e, s)
      | Inr p \<Rightarrow>
          (let req = reduce_request p;
               rep = get_chat_response env (calls s) req;
               s1 = s\<lparr>calls := calls s @ [(req, rep)]\<rparr>
           in case rep of
                Inl e \<Rightarrow> (Some e, s1)
              | Inr r \<Rightarrow>
                  (None, s1\<lparr>final_summary := Some r,
                            logged := logged s1 @
                              [LogRecord INFO (''Final Reduce Summary:'' @ [NL] @ ''%s'')
                                 [PStr r]]\<rparr>)))"

definition reduce_cell :: "env \<Rightarrow> nb_state \<Rightarrow> result" where
  "reduce_cell env s =
     (case reduce_try env s of
        (Some e, s') \<Rightarrow>
          (None, s'\<lparr>logged := logged s' @
             [LogRecord ERROR ''An error occured while generating final summary: %s''
                [PExn e]]\<rparr>)
      | (None, s') \<Rightarrow>
          (case final_summary s' of
             None \<Rightarrow> (Some (NameError ''final_summary''), s')
           | Some r \<Rightarrow>
               (None, s'\<lparr>output_var := Some [(''final_summary'', PStr r),
                                          (''map_summaries'', PStrList (map_summaries s'))]\<rparr>)))"

text \<open>The reduce step: the two cells one after the other.\<close>

definition reduce_step :: "env \<Rightarrow> nb_state \<Rightarrow> result" where
  "reduce_step env s = reduce_cell env (join_cell s)"

text \<open>
  The notebook run from the Map-Step cell on, cell after cell; an exception that leaves a
  cell stops the run.
\<close>

definition run_all :: "env \<Rightarrow> pages \<Rightarrow> nb_state \<Rightarrow> result" where
  "run_all env pages s =
     (case map_cell env pages s of
        (Some e, s') \<Rightarrow> (Some e, s')
      | (None, s') \<Rightarrow> reduce_step env s')"

subsection \<open>Template binding\<close>

text \<open>
  Modelled from the spec: \<^verbatim>\<open>build_prompt\<close> is imported from
  \<^verbatim>\<open>genaipy.prompts.build_prompt\<close>, which is not among the source files; the
  specification describes it as \<^verbatim>\<open>bind(template, bindings)\<close>. A template is a string
  with named placeholders in braces. Binding fails with \<^verbatim>\<open>TemplateError\<close> when a
  placeholder the template refers to has no binding, and ignores bindings the template
  does not refer to. The specification does not say what an opening brace without a closing
  one is; it is kept as text here.
\<close>

datatype piece = Lit char | Hole string

text \<open>
  One pass over the template; the first argument is the placeholder name read so far
  when the pass is between braces.
\<close>

fun pieces :: "string option \<Rightarrow> string \<Rightarrow> piece list" where
  "pieces None [] = []"
| "pieces (Some n) [] = map Lit (CHR ''{'' # n)"
| "pieces None (c # cs) =
     (if c = CHR ''{'' then pieces (Some []) cs else Lit c # pieces None cs)"
| "pieces (Some n) (c # cs) =
     (if c = CHR ''}'' then Hole n # pieces None cs else pieces (Some (n @ [c])) cs)"

fun digits :: "nat \<Rightarrow> string" where
  "digits n =
     (if n < 10 then [''0123456789'' ! n]
      else digits (n div 10) @ [''0123456789'' ! (n mod 10)])"

text \<open>A bound value as text: a string as it is, an integer in decimal.\<close>

fun render :: "arg \<Rightarrow> string" where
  "render (TextArg t) = t"
| "render (IntArg i) = (if i < 0 then CHR ''-'' # digits (nat (- i)) else digits (nat i))"

fun fill :: "piece list \<Rightarrow> (string \<times> arg) list \<Rightarrow> pyexn + string" where
  "fill [] b = Inr []"
| "fill (Lit c # ps) b =
     (case fill ps b of Inl e \<Rightarrow> Inl e | Inr out \<Rightarrow> Inr (c # out))"
| "fill (Hole n # ps) b =
     (case map_of b n of
        None \<Rightarrow> Inl (TemplateError n)
      | Some v \<Rightarrow> (case fill ps b of Inl e \<Rightarrow> Inl e | Inr out \<Rightarrow> Inr (render v @ out)))"

text \<open>
  Modelled from the spec: \<^verbatim>\<open>bind(template, bindings) -> string\<close>, the specification's
  name for \<^verbatim>\<open>build_prompt\<close>, whose source is missing. It is strict on placeholders without
  a binding (the first one met, from the left, is reported) and ignores the other bindings.
\<close>

definition bind :: "string \<Rightarrow> (string \<times> arg) list \<Rightarrow> pyexn + string" where
  "bind template bindings = fill (pieces None template) bindings"

text \<open>The placeholder names a template refers to, in order.\<close>

fun holes :: "piece list \<Rightarrow> string list" where
  "holes [] = []"
| "holes (Lit c # ps) = holes ps"
| "holes (Hole n # ps) = n # holes ps"

definition placeholders :: "string \<Rightarrow> string list" where
  "placeholders template = holes (pieces None template)"

subsection \<open>Test doubles\<close>

text \<open>
  A completion service that answers from a table of prompts and fails on any other
  prompt, and an environment built on it, for running the cells on concrete inputs.
\<close>

definition table_chat :: "(string \<times> string) list \<Rightarrow> call list \<Rightarrow> request \<Rightarrow> reply" where
  "table_chat table history req =
     (case map_of table (prompt req) of
        None \<Rightarrow> Inl (ProviderError ''no reply'')
      | Some r \<Rightarrow> Inr r)"

definition table_env :: "(string \<times> string) list \<Rightarrow> env" where
  "table_env table =
     \<lparr>build_prompt = bind, get_chat_response = table_chat table,
      SUMMARY_PROMPT_TPL = ''map {max_words}: {text}'',
      REDUCE_SUMMARY_PROMPT_TPL = ''reduce {max_words}: {text}''\<rparr>"

definition three_pages :: pages where
  "three_pages = [(1, [(''content'', ''p1'')]), (2, [(''content'', ''p2'')]),
                  (3, [(''content'', ''p3'')])]"

text \<open>Every page is summarised and the reducer answers on the joined summaries.\<close>

definition all_replies :: "(string \<times> string) list" where
  "all_replies =
     [(''map 150: p1'', ''S1''), (''map 150: p2'', ''S2''), (''map 150: p3'', ''S3''),
      (''reduce 300: S1'' @ [NL] @ ''S2'' @ [NL] @ ''S3'', ''FINAL'')]"

text \<open>The call for the second page fails.\<close>

definition replies_without_p2 :: "(string \<times> string) list" where
  "replies_without_p2 =
     [(''map 150: p1'', ''S1''), (''map 150: p3'', ''S3''),
      (''reduce 300: S1'' @ [NL] @ ''S3'', ''FINAL'')]"

text \<open>Every page is summarised and the reducer fails.\<close>

definition map_replies_only :: "(string \<times> string) list" where
  "map_replies_only =
     [(''map 150: p1'', ''S1''), (''map 150: p2'', ''S2''), (''map 150: p3'', ''S3'')]"

text \<open>The reducer answers on the prompt built from the empty text.\<close>

definition empty_input_replies :: "(string \<times> string) list" where
  "empty_input_replies = [(''reduce 300: '', ''FINAL'')]"


subsection \<open>Reading the traces\<close>

text \<open>The texts that the completion service returned, in the order of the calls.\<close>

definition returned :: "call list \<Rightarrow> string list" where
  "returned cs = concat (map (\<lambda>c. case snd c of Inl e \<Rightarrow> [] | Inr r \<Rightarrow> [r]) cs)"

text \<open>The calls made and the records logged between two states of a run.\<close>

definition new_calls :: "nb_state \<Rightarrow> nb_state \<Rightarrow> call list" where
  "new_calls s s' = drop (length (calls s)) (calls s')"

definition new_records :: "nb_state \<Rightarrow> nb_state \<Rightarrow> log_record list" where
  "new_records s s' = drop (length (logged s)) (logged s')"

text \<open>
  What the Map-Step cell logs about a page: the page number is the first argument of the
  record; a record of level \<^verbatim>\<open>INFO\<close> carries the summary of a page that succeeded, a
  record of level \<^verbatim>\<open>ERROR\<close> stands for a page that failed.
\<close>

fun logged_page :: "log_record \<Rightarrow> int option" where
  "logged_page (LogRecord l f (PInt p # rest)) = Some p"
| "logged_page _ = None"

fun success_text :: "log_record \<Rightarrow> string list" where
  "success_text (LogRecord INFO f [PInt p, PStr t]) = [t]"
| "success_text _ = []"

definition successes :: "log_record list \<Rightarrow> string list" where
  "successes rs = concat (map success_text rs)"

definition failures :: "log_record list \<Rightarrow> log_record list" where
  "failures rs = filter (\<lambda>r. lvl r = ERROR) rs"

text \<open>
  The request the Map-Step cell sends for a page, when the prompt of the page is built;
  the level of the record the cell logs for a call, by its reply; the calls that failed.
\<close>

definition page_request :: "env \<Rightarrow> int \<times> (string \<times> string) list \<Rightarrow> request option" where
  "page_request env item =
     (case map_prompt env (snd item) of Inl e \<Rightarrow> None | Inr p \<Rightarrow> Some (map_request p))"

definition reply_level :: "call \<Rightarrow> level" where
  "reply_level c = (case snd c of Inl e \<Rightarrow> ERROR | Inr r \<Rightarrow> INFO)"

definition failed_calls :: "call list \<Rightarrow> call list" where
  "failed_calls cs = filter (\<lambda>c. isl (snd c)) cs"

text \<open>\<^verbatim>\<open>output[k]\<close>, as a caller of the notebook would read the result.\<close>

definition output_field :: "nb_state \<Rightarrow> string \<Rightarrow> pyexn + pyval" where
  "output_field s k =
     (case output_var s of None \<Rightarrow> Inl (NameError ''output'') | Some d \<Rightarrow> py_getitem d k)"

section \<open>Properties of the string operations\<close>

lemma replace_scan_newlines: "replace_scan NL [NL] [] s = drop_double_newlines s"
  by (induction s rule: drop_double_newlines.induct) auto

lemma py_replace_newlines: "py_replace s [NL, NL] [] = drop_double_newlines s"
  by (simp add: py_replace_def replace_scan_newlines)

lemma drop_double_newlines_run:
  "drop_double_newlines (replicate n NL) = replicate (n mod 2) NL"
proof (induction n rule: less_induct)
  case (less n)
  show ?case
  proof (cases n)
    case 0
    then show ?thesis by simp
  next
    case (Suc m)
    show ?thesis
    proof (cases m)
      case 0
      with Suc show ?thesis by simp
    next
      case (Suc k)
      with \<open>n = Suc m\<close> have n: "n = Suc (Suc k)" by simp
      have "drop_double_newlines (replicate k NL) = replicate (k mod 2) NL"
        using less.IH [of k] n by simp
      then show ?thesis using n by simp
    qed
  qed
qed

lemma drop_double_newlines_others:
  "filter (\<lambda>c. c \<noteq> NL) (drop_double_newlines s) = filter (\<lambda>c. c \<noteq> NL) s"
  by (induction s rule: drop_double_newlines.induct) auto

lemma drop_double_newlines_id:
  "\<not> has_double_newline s \<Longrightarrow> drop_double_newlines s = s"
  by (induction s rule: drop_double_newlines.induct) auto

lemma drop_double_newlines_other_head: "c \<noteq> NL \<Longrightarrow> drop_double_newlines (c # cs) = c # drop_double_newlines cs"
  by (cases cs) simp_all

lemma has_double_newline_other_head: "c \<noteq> NL \<Longrightarrow> has_double_newline (c # cs) = has_double_newline cs"
  by (cases cs) simp_all

lemma drop_double_newlines_clean: "\<not> has_double_newline (drop_double_newlines s)"
proof (induction s rule: drop_double_newlines.induct)
  case 1
  show ?case by simp
next
  case (2 c)
  show ?case by simp
next
  case (3 c d cs)
  show ?case
  proof (cases "c = NL \<and> d = NL")
    case True
    then show ?thesis using 3 by simp
  next
    case False
    then have ih: "\<not> has_double_newline (drop_double_newlines (d # cs))"
      using 3 by simp
    show ?thesis
    proof (cases "c = NL")
      case True
      then have d: "d \<noteq> NL" using False by simp
      have "drop_double_newlines (c # d # cs) = c # d # drop_double_newlines cs"
        using False d by (simp add: drop_double_newlines_other_head)
      moreover have "\<not> has_double_newline (d # drop_double_newlines cs)"
        using ih d by (simp add: drop_double_newlines_other_head)
      ultimately show ?thesis using d by (simp add: has_double_newline_other_head)
    next
      case c: False
      then show ?thesis using ih by (simp add: has_double_newline_other_head)
    qed
  qed
qed

lemma filter_py_join:
  "filter (\<lambda>c. c \<noteq> NL) (py_join [NL] ms) = concat (map (filter (\<lambda>c. c \<noteq> NL)) ms)"
  by (induction "[NL]" ms rule: py_join.induct) simp_all

lemma has_double_newline_append:
  "NL \<notin> set x \<Longrightarrow> has_double_newline (x @ c # cs) = has_double_newline (c # cs)"
proof (induction x)
  case Nil
  show ?case by simp
next
  case (Cons a x)
  then have "a \<noteq> NL" by auto
  then show ?case using Cons by (simp add: has_double_newline_other_head)
qed

lemma py_join_head:
  "\<forall>m\<in>set (y # ys). m \<noteq> [] \<and> NL \<notin> set m \<Longrightarrow> \<exists>c cs. py_join [NL] (y # ys) = c # cs \<and> c \<noteq> NL"
  by (cases y; cases ys) auto

lemma py_join_clean:
  "\<forall>m\<in>set ms. m \<noteq> [] \<and> NL \<notin> set m \<Longrightarrow> \<not> has_double_newline (py_join [NL] ms)"
proof (induction "[NL]" ms rule: py_join.induct)
  case 1
  show ?case by simp
next
  case (2 x)
  then have "NL \<notin> set x" by simp
  then show ?case using has_double_newline_append [of x NL "[]"]
    by (cases x rule: rev_cases) (simp_all add: has_double_newline_append)
next
  case (3 x y ys)
  then have ih: "\<not> has_double_newline (py_join [NL] (y # ys))" by simp
  obtain c cs where j: "py_join [NL] (y # ys) = c # cs" "c \<noteq> NL"
    using py_join_head [of y ys] 3(2) by auto
  have x: "NL \<notin> set x" using 3(2) by simp
  have "has_double_newline (x @ NL # c # cs) = has_double_newline (NL # c # cs)"
    using x by (rule has_double_newline_append)
  also have "\<dots> = has_double_newline (c # cs)"
    using j(2) by simp
  finally show ?case using ih j by simp
qed

section \<open>Properties of the cells\<close>

subsection \<open>One iteration of the Map-Step loop\<close>

lemma returned_append: "returned (xs @ ys) = returned xs @ returned ys"
  by (simp add: returned_def)

lemma map_try_prompt_fails:
  "map_prompt env entry = Inl e \<Longrightarrow> map_try env page entry s = (Some e, s)"
  by (simp add: map_try_def)

lemma map_try_call_fails:
  "map_prompt env entry = Inr p \<Longrightarrow> get_chat_response env (calls s) (map_request p) = Inl e \<Longrightarrow>
   map_try env page entry s = (Some e, s\<lparr>calls := calls s @ [(map_request p, Inl e)]\<rparr>)"
  by (simp add: map_try_def Let_def)

lemma map_try_call_returns:
  "map_prompt env entry = Inr p \<Longrightarrow> get_chat_response env (calls s) (map_request p) = Inr r \<Longrightarrow>
   map_try env page entry s =
     (None, s\<lparr>calls := calls s @ [(map_request p, Inr r)], summary := Some r,
              map_summaries := map_summaries s @ [r],
              logged := logged s @ [LogRecord INFO ''Map Summary #%d: %s'' [PInt page, PStr r]]\<rparr>)"
  by (simp add: map_try_def Let_def)

lemma map_try_cases:
  obtains (prompt_fails) e where "map_prompt env entry = Inl e"
      and "map_try env page entry s = (Some e, s)"
  | (call_fails) p e where "map_prompt env entry = Inr p"
      and "get_chat_response env (calls s) (map_request p) = Inl e"
      and "map_try env page entry s = (Some e, s\<lparr>calls := calls s @ [(map_request p, Inl e)]\<rparr>)"
  | (call_returns) p r where "map_prompt env entry = Inr p"
      and "get_chat_response env (calls s) (map_request p) = Inr r"
      and "map_try env page entry s =
     (None, s\<lparr>calls := calls s @ [(map_request p, Inr r)], summary := Some r,
              map_summaries := map_summaries s @ [r],
              logged := logged s @ [LogRecord INFO ''Map Summary #%d: %s'' [PInt page, PStr r]]\<rparr>)"
proof (cases "map_prompt env entry")
  case (Inl e)
  then show ?thesis using prompt_fails map_try_prompt_fails by blast
next
  case (Inr p)
  show ?thesis
  proof (cases "get_chat_response env (calls s) (map_request p)")
    case (Inl e)
    then show ?thesis using Inr call_fails map_try_call_fails by blast
  next
    case r: (Inr r)
    then show ?thesis using Inr call_returns map_try_call_returns by blast
  qed
qed

subsection \<open>The summaries kept are the texts returned\<close>

lemma map_step_calls:
  "\<exists>new. calls (snd (map_step env item s)) = calls s @ new
     \<and> map_summaries (snd (map_step env item s)) = map_summaries s @ returned new"
proof (cases rule: map_try_cases [of env "snd item" "fst item" s])
  case (prompt_fails e)
  then show ?thesis
    by (auto simp: map_step_def returned_def split: option.splits)
next
  case (call_fails p e)
  then show ?thesis
    by (auto simp: map_step_def returned_def split: option.splits)
next
  case (call_returns p r)
  then show ?thesis
    by (auto simp: map_step_def returned_def split: option.splits)
qed

lemma map_loop_calls:
  "\<exists>new. calls (snd (map_loop env items s)) = calls s @ new
     \<and> map_summaries (snd (map_loop env items s)) = map_summaries s @ returned new"
proof (induction items arbitrary: s)
  case Nil
  show ?case by (simp add: returned_def)
next
  case (Cons item rest)
  obtain x s1 where st: "map_step env item s = (x, s1)"
    by (cases "map_step env item s")
  obtain n1 where n1: "calls s1 = calls s @ n1"
      "map_summaries s1 = map_summaries s @ returned n1"
    using map_step_calls [of env item s] st by auto
  show ?case
  proof (cases x)
    case (Some e)
    then show ?thesis using st n1 by simp
  next
    case None
    obtain n2 where n2: "calls (snd (map_loop env rest s1)) = calls s1 @ n2"
       "map_summaries (snd (map_loop env rest s1)) = map_summaries s1 @ returned n2"
      using Cons.IH [of s1] by auto
    have "calls (snd (map_loop env (item # rest) s)) = calls s @ (n1 @ n2)"
      using st None n1 n2 by simp
    moreover have "map_summaries (snd (map_loop env (item # rest) s))
        = map_summaries s @ returned (n1 @ n2)"
      using st None n1 n2 by (simp add: returned_append)
    ultimately show ?thesis by blast
  qed
qed

lemma map_cell_keeps_returned:
  "map_summaries (snd (map_cell env pages s)) =
     returned (drop (length (calls s)) (calls (snd (map_cell env pages s))))"
proof -
  obtain new where "calls (snd (map_cell env pages s)) = calls s @ new"
    "map_summaries (snd (map_cell env pages s)) = returned new"
    using map_loop_calls [of env pages "s\<lparr>map_summaries := []\<rparr>"] by (auto simp: map_cell_def)
  then show ?thesis by simp
qed

subsection \<open>The Reduce-Step cells\<close>

lemma join_cell_fields [simp]:
  "map_summaries (join_cell s) = map_summaries s"
  "calls (join_cell s) = calls s"
  "summary (join_cell s) = summary s"
  "final_summary (join_cell s) = final_summary s"
  "output_var (join_cell s) = output_var s"
  "logged (join_cell s) = logged s"
  "text_var (join_cell s) = Some (reduce_text (map_summaries s))"
  "printed (join_cell s) = printed s @ [reduce_text (map_summaries s)]"
  by (simp_all add: join_cell_def Let_def)

lemma reduce_cell_prompt_fails:
  "reduce_prompt env s = Inl e \<Longrightarrow>
   reduce_cell env s = (None, s\<lparr>logged := logged s @
      [LogRecord ERROR ''An error occured while generating final summary: %s'' [PExn e]]\<rparr>)"
  by (simp add: reduce_cell_def reduce_try_def)

lemma reduce_cell_call_fails:
  "reduce_prompt env s = Inr p \<Longrightarrow> get_chat_response env (calls s) (reduce_request p) = Inl e \<Longrightarrow>
   reduce_cell env s = (None, s\<lparr>calls := calls s @ [(reduce_request p, Inl e)],
      logged := logged s @
      [LogRecord ERROR ''An error occured while generating final summary: %s'' [PExn e]]\<rparr>)"
  by (simp add: reduce_cell_def reduce_try_def Let_def)

lemma reduce_cell_call_returns:
  "reduce_prompt env s = Inr p \<Longrightarrow> get_chat_response env (calls s) (reduce_request p) = Inr r \<Longrightarrow>
   reduce_cell env s = (None, s\<lparr>calls := calls s @ [(reduce_request p, Inr r)],
      final_summary := Some r,
      logged := logged s @
        [LogRecord INFO (''Final Reduce Summary:'' @ [NL] @ ''%s'') [PStr r]],
      output_var := Some [(''final_summary'', PStr r),
                          (''map_summaries'', PStrList (map_summaries s))]\<rparr>)"
  by (simp add: reduce_cell_def reduce_try_def Let_def)

lemma reduce_cell_cases:
  obtains (prompt_fails) e where "reduce_prompt env s = Inl e"
  | (call_fails) p e where "reduce_prompt env s = Inr p"
      and "get_chat_response env (calls s) (reduce_request p) = Inl e"
  | (call_returns) p r where "reduce_prompt env s = Inr p"
      and "get_chat_response env (calls s) (reduce_request p) = Inr r"
proof (cases "reduce_prompt env s")
  case (Inl e)
  then show ?thesis using prompt_fails by blast
next
  case (Inr p)
  then show ?thesis using call_fails call_returns
    by (cases "get_chat_response env (calls s) (reduce_request p)") blast+
qed

lemma reduce_cell_map_summaries: "map_summaries (snd (reduce_cell env s)) = map_summaries s"
  by (cases rule: reduce_cell_cases [of env s])
     (simp_all add: reduce_cell_prompt_fails reduce_cell_call_fails reduce_cell_call_returns)

lemma reduce_cell_never_raises: "fst (reduce_cell env s) = None"
  by (cases rule: reduce_cell_cases [of env s])
     (simp_all add: reduce_cell_prompt_fails reduce_cell_call_fails reduce_cell_call_returns)

lemma reduce_cell_output:
  "output_var (snd (reduce_cell env s)) = output_var s \<or>
   (\<exists>r. output_var (snd (reduce_cell env s)) =
      Some [(''final_summary'', PStr r), (''map_summaries'', PStrList (map_summaries s))])"
  by (cases rule: reduce_cell_cases [of env s])
     (simp_all add: reduce_cell_prompt_fails reduce_cell_call_fails reduce_cell_call_returns)

subsection \<open>The handler of the Map-Step loop\<close>

lemma map_step_raises:
  "map_try env (fst item) (snd item) s = (Some e, s1) \<Longrightarrow> summary s1 = None \<Longrightarrow>
   map_step env item s = (Some (NameError ''summary''), s1)"
  by (simp add: map_step_def)

lemma map_step_logs_summary:
  "map_try env (fst item) (snd item) s = (Some e, s1) \<Longrightarrow> summary s1 = Some v \<Longrightarrow>
   map_step env item s = (None, s1\<lparr>logged := logged s1 @
      [LogRecord ERROR ''An error occured while generating summary #%d: %s''
         [PInt (fst item), PStr v]]\<rparr>)"
  by (simp add: map_step_def)

lemma map_step_succeeds:
  "map_try env (fst item) (snd item) s = (None, s1) \<Longrightarrow> map_step env item s = (None, s1)"
  by (simp add: map_step_def)

lemma map_try_fails_keeps:
  "map_try env page entry s = (Some e, s1) \<Longrightarrow>
   summary s1 = summary s \<and> logged s1 = logged s \<and> map_summaries s1 = map_summaries s"
  by (cases rule: map_try_cases [of env entry page s]) auto

lemma map_loop_continue:
  "map_step env item s = (None, s1) \<Longrightarrow> map_loop env (item # rest) s = map_loop env rest s1"
  by simp

subsection \<open>One log record per page\<close>

lemma map_step_logged:
  assumes "map_step env item s = (None, s1)"
  shows "\<exists>r. logged s1 = logged s @ [r] \<and> logged_page r = Some (fst item)
     \<and> map_summaries s1 = map_summaries s @ success_text r
     \<and> length (success_text r) + length (failures [r]) = 1"
proof (cases rule: map_try_cases [of env "snd item" "fst item" s])
  case (prompt_fails e)
  then show ?thesis using assms
    by (auto simp: map_step_def failures_def split: option.splits)
next
  case (call_fails p e)
  then show ?thesis using assms
    by (auto simp: map_step_def failures_def split: option.splits)
next
  case (call_returns p r)
  then show ?thesis using assms
    by (auto simp: map_step_def failures_def split: option.splits)
qed

lemma map_loop_logged:
  "map_loop env items s = (None, s') \<Longrightarrow>
   \<exists>new. logged s' = logged s @ new
     \<and> map logged_page new = map (\<lambda>item. Some (fst item)) items
     \<and> map_summaries s' = map_summaries s @ successes new
     \<and> length (successes new) + length (failures new) = length items"
proof (induction items arbitrary: s)
  case Nil
  then show ?case by (simp add: successes_def failures_def)
next
  case (Cons item rest)
  obtain x s1 where st: "map_step env item s = (x, s1)"
    by (cases "map_step env item s")
  show ?case
  proof (cases x)
    case (Some e)
    then show ?thesis using Cons.prems st by simp
  next
    case None
    then have l: "map_loop env rest s1 = (None, s')"
      using Cons.prems st by simp
    obtain r where r: "logged s1 = logged s @ [r]" "logged_page r = Some (fst item)"
        "map_summaries s1 = map_summaries s @ success_text r"
        "length (success_text r) + length (failures [r]) = 1"
      using map_step_logged [of env item s s1] st None by auto
    obtain new where n: "logged s' = logged s1 @ new"
        "map logged_page new = map (\<lambda>item. Some (fst item)) rest"
        "map_summaries s' = map_summaries s1 @ successes new"
        "length (successes new) + length (failures new) = length rest"
      using Cons.IH [OF l] by auto
    have "logged s' = logged s @ (r # new)" using r n by simp
    moreover have "map logged_page (r # new) = map (\<lambda>item. Some (fst item)) (item # rest)"
      using r n by simp
    moreover have "map_summaries s' = map_summaries s @ successes (r # new)"
      using r n by (simp add: successes_def)
    moreover have "length (successes (r # new)) + length (failures (r # new)) = length (item # rest)"
      using r(4) n(4) by (auto simp: successes_def failures_def split: if_splits)
    ultimately show ?thesis by blast
  qed
qed

lemma map_step_all_returned:
  assumes "\<not> isl (map_prompt env (snd item))"
    and "calls (snd (map_step env item s)) = calls s @ n1"
    and "\<forall>c\<in>set n1. \<not> isl (snd c)"
  shows "fst (map_step env item s) = None
     \<and> length (map_summaries (snd (map_step env item s))) = Suc (length (map_summaries s))"
proof (cases rule: map_try_cases [of env "snd item" "fst item" s])
  case (prompt_fails e)
  then show ?thesis using assms by simp
next
  case (call_fails p e)
  then have "calls (snd (map_step env item s)) = calls s @ [(map_request p, Inl e)]"
    by (auto simp: map_step_def split: option.splits)
  then show ?thesis using assms by auto
next
  case (call_returns p r)
  then show ?thesis
    by (simp add: map_step_def)
qed

lemma map_loop_all_returned:
  "\<forall>item\<in>set items. \<not> isl (map_prompt env (snd item)) \<Longrightarrow>
   calls (snd (map_loop env items s)) = calls s @ new \<Longrightarrow>
   \<forall>c\<in>set new. \<not> isl (snd c) \<Longrightarrow>
   fst (map_loop env items s) = None
     \<and> length (map_summaries (snd (map_loop env items s))) = length (map_summaries s) + length items"
proof (induction items arbitrary: s new)
  case Nil
  then show ?case by simp
next
  case (Cons item rest)
  obtain x s1 where st: "map_step env item s = (x, s1)"
    by (cases "map_step env item s")
  obtain n1 where n1: "calls s1 = calls s @ n1"
    using map_step_calls [of env item s] st by auto
  obtain n2 where n2: "calls (snd (map_loop env rest s1)) = calls s1 @ n2"
    using map_loop_calls [of env rest s1] by auto
  have new: "set n1 \<subseteq> set new \<and> (x = None \<longrightarrow> new = n1 @ n2)"
    using Cons.prems(2) st n1 n2 by (cases x) auto
  have ok1: "\<forall>c\<in>set n1. \<not> isl (snd c)"
    using new Cons.prems(3) by blast
  have step: "x = None \<and> length (map_summaries s1) = Suc (length (map_summaries s))"
    using map_step_all_returned [of env item s n1] Cons.prems(1) n1 ok1 st by simp
  have ok2: "\<forall>c\<in>set n2. \<not> isl (snd c)"
    using new step Cons.prems(3) by auto
  have "fst (map_loop env rest s1) = None
     \<and> length (map_summaries (snd (map_loop env rest s1))) = length (map_summaries s1) + length rest"
    using Cons.IH [of s1 n2] Cons.prems(1) n2 ok2 by simp
  then show ?case using st step by simp
qed

subsection \<open>The reduce step, case by case\<close>

lemma reduce_text_Nil: "reduce_text [] = []"
  by (simp add: reduce_text_def py_replace_def)

lemma reduce_prompt_join:
  "reduce_prompt env (join_cell s) =
     build_prompt env (REDUCE_SUMMARY_PROMPT_TPL env)
       [(''text'', TextArg (reduce_text (map_summaries s))), (''max_words'', IntArg REDUCE_MAX_WORDS)]"
  by (simp add: reduce_prompt_def)

lemma reduce_step_prompt_fails:
  "reduce_prompt env (join_cell s) = Inl e \<Longrightarrow>
   reduce_step env s = (None, (join_cell s)\<lparr>logged := logged s @
      [LogRecord ERROR ''An error occured while generating final summary: %s'' [PExn e]]\<rparr>)"
  using reduce_cell_prompt_fails [of env "join_cell s" e] by (simp add: reduce_step_def)

lemma reduce_step_call_fails:
  "reduce_prompt env (join_cell s) = Inr p \<Longrightarrow>
   get_chat_response env (calls s) (reduce_request p) = Inl e \<Longrightarrow>
   reduce_step env s = (None, (join_cell s)\<lparr>calls := calls s @ [(reduce_request p, Inl e)],
      logged := logged s @
      [LogRecord ERROR ''An error occured while generating final summary: %s'' [PExn e]]\<rparr>)"
  using reduce_cell_call_fails [of env "join_cell s" p e] by (simp add: reduce_step_def)

lemma reduce_step_call_returns:
  "reduce_prompt env (join_cell s) = Inr p \<Longrightarrow>
   get_chat_response env (calls s) (reduce_request p) = Inr r \<Longrightarrow>
   reduce_step env s = (None, (join_cell s)\<lparr>calls := calls s @ [(reduce_request p, Inr r)],
      final_summary := Some r,
      logged := logged s @
        [LogRecord INFO (''Final Reduce Summary:'' @ [NL] @ ''%s'') [PStr r]],
      output_var := Some [(''final_summary'', PStr r),
                          (''map_summaries'', PStrList (map_summaries s))]\<rparr>)"
  using reduce_cell_call_returns [of env "join_cell s" p r] by (simp add: reduce_step_def)




subsection \<open>A failing call does not stop the Map-Step loop\<close>

lemma returned_or_failed: "length (returned cs) + length (failed_calls cs) = length cs"
  by (induction cs) (auto simp: returned_def failed_calls_def split: sum.splits)

lemma map_step_bound:
  assumes "summary s = Some v"
  shows "\<exists>s1 w. map_step env item s = (None, s1) \<and> summary s1 = Some w"
proof (cases rule: map_try_cases [of env "snd item" "fst item" s])
  case (prompt_fails e)
  then show ?thesis using assms by (simp add: map_step_def)
next
  case (call_fails p e)
  then show ?thesis using assms by (simp add: map_step_def)
next
  case (call_returns p r)
  then show ?thesis by (simp add: map_step_def)
qed

lemma map_loop_bound:
  "summary s = Some v \<Longrightarrow> fst (map_loop env items s) = None"
proof (induction items arbitrary: s v)
  case Nil
  show ?case by simp
next
  case (Cons item rest)
  obtain s1 w where "map_step env item s = (None, s1)" "summary s1 = Some w"
    using map_step_bound [OF Cons.prems, of env item] by blast
  then show ?case using Cons.IH [of s1 w] by simp
qed

lemma map_cell_bound: "summary s = Some v \<Longrightarrow> fst (map_cell env pages s) = None"
  using map_loop_bound [of "s\<lparr>map_summaries := []\<rparr>" v env pages] by (simp add: map_cell_def)

lemma map_cell_first_returns:
  assumes "map_prompt env entry = Inr p"
    and "get_chat_response env (calls s) (map_request p) = Inr r"
  shows "fst (map_cell env ((page, entry) # rest) s) = None"
proof -
  let ?s0 = "s\<lparr>map_summaries := []\<rparr>"
  obtain s1 where t: "map_try env page entry ?s0 = (None, s1)" and b: "summary s1 = Some r"
    using map_try_call_returns [of env entry p ?s0 r page] assms by simp
  have "map_step env (page, entry) ?s0 = (None, s1)"
    using t by (intro map_step_succeeds) simp
  then have "map_loop env ((page, entry) # rest) ?s0 = map_loop env rest s1"
    by (rule map_loop_continue)
  then show ?thesis using map_loop_bound [OF b, of env rest] by (simp add: map_cell_def)
qed

lemma map_step_call_per_page:
  assumes "\<not> isl (map_prompt env (snd item))" and "map_step env item s = (None, s1)"
  shows "\<exists>c r. calls s1 = calls s @ [c] \<and> logged s1 = logged s @ [r]
     \<and> Some (fst c) = page_request env item \<and> lvl r = reply_level c"
proof (cases rule: map_try_cases [of env "snd item" "fst item" s])
  case (prompt_fails e)
  then show ?thesis using assms by simp
next
  case (call_fails p e)
  then show ?thesis using assms
    by (auto simp: map_step_def page_request_def reply_level_def split: option.splits)
next
  case (call_returns p r)
  then show ?thesis using assms
    by (auto simp: map_step_def page_request_def reply_level_def split: option.splits)
qed

lemma map_loop_call_per_page:
  "\<forall>item\<in>set items. \<not> isl (map_prompt env (snd item)) \<Longrightarrow>
   map_loop env items s = (None, s') \<Longrightarrow>
   \<exists>cs rs. calls s' = calls s @ cs \<and> logged s' = logged s @ rs
     \<and> map (\<lambda>c. Some (fst c)) cs = map (page_request env) items
     \<and> map lvl rs = map reply_level cs"
proof (induction items arbitrary: s)
  case Nil
  then show ?case by simp
next
  case (Cons item rest)
  obtain x s1 where st: "map_step env item s = (x, s1)"
    by (cases "map_step env item s")
  show ?case
  proof (cases x)
    case (Some e)
    then show ?thesis using Cons.prems st by simp
  next
    case None
    then have l: "map_loop env rest s1 = (None, s')"
      using Cons.prems st by simp
    obtain c r where c: "calls s1 = calls s @ [c]" "logged s1 = logged s @ [r]"
        "Some (fst c) = page_request env item" "lvl r = reply_level c"
      using map_step_call_per_page [of env item s s1] Cons.prems(1) st None by auto
    obtain cs rs where n: "calls s' = calls s1 @ cs" "logged s' = logged s1 @ rs"
        "map (\<lambda>c. Some (fst c)) cs = map (page_request env) rest"
        "map lvl rs = map reply_level cs"
      using Cons.IH [OF _ l] Cons.prems(1) by auto
    have "calls s' = calls s @ (c # cs)" using c n by simp
    moreover have "logged s' = logged s @ (r # rs)" using c n by simp
    moreover have "map (\<lambda>c. Some (fst c)) (c # cs) = map (page_request env) (item # rest)"
      using c n by simp
    moreover have "map lvl (r # rs) = map reply_level (c # cs)"
      using c n by simp
    ultimately show ?thesis by blast
  qed
qed

lemma map_step_failed_page:
  assumes "summary s = Some v" and "fst (map_try env page entry s) = Some e"
  shows "fst (map_step env (page, entry) s) = None
     \<and> map_summaries (snd (map_step env (page, entry) s)) = map_summaries s
     \<and> map lvl (new_records s (snd (map_step env (page, entry) s))) = [ERROR]
     \<and> map logged_page (new_records s (snd (map_step env (page, entry) s))) = [Some page]"
proof -
  obtain s1 where t: "map_try env page entry s = (Some e, s1)"
    using assms(2) by (cases "map_try env page entry s") auto
  have k: "summary s1 = Some v" "logged s1 = logged s" "map_summaries s1 = map_summaries s"
    using map_try_fails_keeps [OF t] assms(1) by simp_all
  have "map_step env (page, entry) s = (None, s1\<lparr>logged := logged s1 @
      [LogRecord ERROR ''An error occured while generating summary #%d: %s''
         [PInt (fst (page, entry)), PStr v]]\<rparr>)"
    using t k by (intro map_step_logs_summary) simp_all
  then show ?thesis using k by (simp add: new_records_def)
qed

section \<open>Properties of template binding\<close>

lemma fill_missing:
  "n \<in> set (holes ps) \<Longrightarrow> map_of b n = None \<Longrightarrow>
   \<exists>m. fill ps b = Inl (TemplateError m) \<and> m \<in> set (holes ps) \<and> map_of b m = None"
proof (induction ps b rule: fill.induct)
  case (1 b)
  then show ?case by simp
next
  case (2 c ps b)
  then show ?case by (auto split: sum.splits)
next
  case (3 k ps b)
  show ?case
  proof (cases "map_of b k")
    case None
    then show ?thesis by simp
  next
    case (Some v)
    then have "n \<in> set (holes ps)" using 3(2,3) by auto
    then obtain m where "fill ps b = Inl (TemplateError m)" "m \<in> set (holes ps)" "map_of b m = None"
      using 3(1) [OF Some] 3(3) by blast
    then show ?thesis using Some by simp
  qed
qed

lemma fill_agree:
  "\<forall>n\<in>set (holes ps). map_of b n = map_of b' n \<Longrightarrow> fill ps b = fill ps b'"
proof (induction ps b rule: fill.induct)
  case (1 b)
  show ?case by simp
next
  case (2 c ps b)
  then show ?case by simp
next
  case (3 k ps b)
  show ?case
  proof (cases "map_of b k")
    case None
    then show ?thesis using 3(2) by simp
  next
    case (Some v)
    then have "fill ps b = fill ps b'" using 3 by simp
    then show ?thesis using Some 3(2) by simp
  qed
qed

lemma fill_bound:
  "\<forall>n\<in>set (holes ps). map_of b n \<noteq> None \<Longrightarrow> \<exists>out. fill ps b = Inr out"
proof (induction ps b rule: fill.induct)
  case (1 b)
  show ?case by simp
next
  case (2 c ps b)
  then show ?case by auto
next
  case (3 k ps b)
  then obtain v where v: "map_of b k = Some v" by auto
  then obtain out where "fill ps b = Inr out" using 3 by auto
  then show ?case using v by simp
qed

section \<open>The claims\<close>

text \<open>
  C1, amended. The Map-Step cell keeps one entry per page whose call returned, not one
  per page. For every sequence of \<open>N\<close> pages:
  \<^item> a failing call does not stop the loop: when \<^verbatim>\<open>summary\<close> is bound, or the call for the
    first page returns, the loop runs to its end; a page that fails then leaves
    \<^verbatim>\<open>map_summaries\<close> as it was and is logged in exactly one record, of level
    \<^verbatim>\<open>ERROR\<close>, under its page number;
  \<^item> \<^verbatim>\<open>map_summaries\<close> is always exactly the texts returned by the calls that
    returned, in the order of the calls;
  \<^item> when the loop runs to its end, the cell's own logging calls make exactly \<open>N\<close>
    records, one per page, carrying the page numbers in page order, and
    \<^verbatim>\<open>map_summaries\<close> holds the summaries of the \<^verbatim>\<open>INFO\<close> records; when moreover every
    prompt is built, the cell makes exactly one call per page, in page order, the record
    of a page is of level \<^verbatim>\<open>INFO\<close> when its call returned and \<^verbatim>\<open>ERROR\<close> when it
    failed, and the number of summaries plus the number of failed calls is \<open>N\<close>:
    \<open>N\<close> entries when every call returns, \<open>N - 1\<close> when exactly one fails.
\<close>

theorem map_cell_one_record_per_page:
  "(fst (map_cell env pages s) = None \<longrightarrow>
      map logged_page (new_records s (snd (map_cell env pages s)))
        = map (\<lambda>item. Some (fst item)) pages
    \<and> map_summaries (snd (map_cell env pages s))
        = successes (new_records s (snd (map_cell env pages s)))
    \<and> length (map_summaries (snd (map_cell env pages s)))
        + length (failures (new_records s (snd (map_cell env pages s)))) = length pages)
   \<and> ((\<forall>item\<in>set pages. \<not> isl (map_prompt env (snd item)))
      \<and> (\<forall>c\<in>set (new_calls s (snd (map_cell env pages s))). \<not> isl (snd c))
    \<longrightarrow> fst (map_cell env pages s) = None
      \<and> length (map_summaries (snd (map_cell env pages s))) = length pages)
   \<and> (summary s \<noteq> None \<longrightarrow> fst (map_cell env pages s) = None)
   \<and> (map_prompt env entry = Inr p \<and> get_chat_response env (calls s) (map_request p) = Inr r
    \<longrightarrow> fst (map_cell env ((page, entry) # rest) s) = None)
   \<and> map_summaries (snd (map_cell env pages s))
       = returned (new_calls s (snd (map_cell env pages s)))
   \<and> ((\<forall>item\<in>set pages. \<not> isl (map_prompt env (snd item)))
      \<and> fst (map_cell env pages s) = None
    \<longrightarrow> map (\<lambda>c. Some (fst c)) (new_calls s (snd (map_cell env pages s)))
        = map (page_request env) pages
      \<and> map lvl (new_records s (snd (map_cell env pages s)))
        = map reply_level (new_calls s (snd (map_cell env pages s)))
      \<and> length (map_summaries (snd (map_cell env pages s)))
        + length (failed_calls (new_calls s (snd (map_cell env pages s)))) = length pages)
   \<and> (summary t = Some v \<and> fst (map_try env failed_page failed_entry t) = Some e
    \<longrightarrow> fst (map_step env (failed_page, failed_entry) t) = None
      \<and> map_summaries (snd (map_step env (failed_page, failed_entry) t)) = map_summaries t
      \<and> map lvl (new_records t (snd (map_step env (failed_page, failed_entry) t))) = [ERROR]
      \<and> map logged_page (new_records t (snd (map_step env (failed_page, failed_entry) t)))
          = [Some failed_page])"
proof -
  let ?s0 = "s\<lparr>map_summaries := []\<rparr>"
  let ?s' = "snd (map_cell env pages s)"
  have loop: "map_loop env pages ?s0 = (None, ?s')" if "fst (map_cell env pages s) = None"
    using that by (simp add: map_cell_def prod_eq_iff)
  have part1: "map logged_page (new_records s ?s') = map (\<lambda>item. Some (fst item)) pages
    \<and> map_summaries ?s' = successes (new_records s ?s')
    \<and> length (map_summaries ?s') + length (failures (new_records s ?s')) = length pages"
    if c: "fst (map_cell env pages s) = None"
  proof -
    obtain new where n: "logged ?s' = logged ?s0 @ new"
       "map logged_page new = map (\<lambda>item. Some (fst item)) pages"
       "map_summaries ?s' = map_summaries ?s0 @ successes new"
       "length (successes new) + length (failures new) = length pages"
      using map_loop_logged [OF loop [OF c]] by auto
    have nr: "new_records s ?s' = new" using n(1) by (simp add: new_records_def)
    show ?thesis using n nr by simp
  qed
  have part2: "fst (map_cell env pages s) = None \<and> length (map_summaries ?s') = length pages"
    if a: "\<forall>item\<in>set pages. \<not> isl (map_prompt env (snd item))"
      and b: "\<forall>c\<in>set (new_calls s ?s'). \<not> isl (snd c)"
  proof -
    obtain new where n: "calls (snd (map_loop env pages ?s0)) = calls ?s0 @ new"
      using map_loop_calls [of env pages ?s0] by auto
    then have "new_calls s ?s' = new"
      by (simp add: new_calls_def map_cell_def)
    then have "fst (map_loop env pages ?s0) = None
       \<and> length (map_summaries (snd (map_loop env pages ?s0))) = length (map_summaries ?s0) + length pages"
      using map_loop_all_returned [of pages env ?s0 new] a b n by simp
    then show ?thesis by (simp add: map_cell_def)
  qed
  have part3: "fst (map_cell env pages s) = None" if "summary s \<noteq> None"
    using that map_cell_bound [of s _ env pages] by auto
  have part4: "fst (map_cell env ((page, entry) # rest) s) = None"
    if "map_prompt env entry = Inr p" and "get_chat_response env (calls s) (map_request p) = Inr r"
    using that by (rule map_cell_first_returns)
  have part5: "map_summaries ?s' = returned (new_calls s ?s')"
    using map_cell_keeps_returned [of env pages s] by (simp add: new_calls_def)
  have part6: "map (\<lambda>c. Some (fst c)) (new_calls s ?s') = map (page_request env) pages
      \<and> map lvl (new_records s ?s') = map reply_level (new_calls s ?s')
      \<and> length (map_summaries ?s') + length (failed_calls (new_calls s ?s')) = length pages"
    if a: "\<forall>item\<in>set pages. \<not> isl (map_prompt env (snd item))"
      and c: "fst (map_cell env pages s) = None"
  proof -
    obtain cs rs where n: "calls ?s' = calls ?s0 @ cs" "logged ?s' = logged ?s0 @ rs"
        "map (\<lambda>c. Some (fst c)) cs = map (page_request env) pages"
        "map lvl rs = map reply_level cs"
      using map_loop_call_per_page [OF a loop [OF c]] by auto
    have nc: "new_calls s ?s' = cs" using n(1) by (simp add: new_calls_def)
    have nr: "new_records s ?s' = rs" using n(2) by (simp add: new_records_def)
    have "length cs = length pages"
      using n(3) by (metis length_map)
    then have "length (map_summaries ?s') + length (failed_calls cs) = length pages"
      using part5 nc returned_or_failed [of cs] by simp
    then show ?thesis using n nc nr by simp
  qed
  have part7: "fst (map_step env (failed_page, failed_entry) t) = None
      \<and> map_summaries (snd (map_step env (failed_page, failed_entry) t)) = map_summaries t
      \<and> map lvl (new_records t (snd (map_step env (failed_page, failed_entry) t))) = [ERROR]
      \<and> map logged_page (new_records t (snd (map_step env (failed_page, failed_entry) t)))
          = [Some failed_page]"
    if "summary t = Some v" and "fst (map_try env failed_page failed_entry t) = Some e"
    using that by (rule map_step_failed_page)
  show ?thesis
    using part1 part2 part3 part4 part5 part6 part7 by blast
qed

theorem map_cell_one_record_per_page_witness:
  "fst (map_cell (table_env all_replies) three_pages fresh) = None
   \<and> list_all (\<lambda>item. \<not> isl (map_prompt (table_env all_replies) (snd item))) three_pages
   \<and> list_all (\<lambda>c. \<not> isl (snd c))
        (new_calls fresh (snd (map_cell (table_env all_replies) three_pages fresh)))
   \<and> map logged_page (new_records fresh (snd (map_cell (table_env all_replies) three_pages fresh)))
       = map (\<lambda>item. Some (fst item)) three_pages
   \<and> length (map_summaries (snd (map_cell (table_env all_replies) three_pages fresh)))
       = length three_pages
   \<and> fst (map_cell (table_env replies_without_p2) three_pages fresh) = None
   \<and> list_all (\<lambda>item. \<not> isl (map_prompt (table_env replies_without_p2) (snd item))) three_pages
   \<and> map_summaries (snd (map_cell (table_env replies_without_p2) three_pages fresh))
       = successes (new_records fresh (snd (map_cell (table_env replies_without_p2) three_pages fresh)))
   \<and> map_summaries (snd (map_cell (table_env replies_without_p2) three_pages fresh))
       = returned (new_calls fresh (snd (map_cell (table_env replies_without_p2) three_pages fresh)))
   \<and> map (\<lambda>c. Some (fst c))
        (new_calls fresh (snd (map_cell (table_env replies_without_p2) three_pages fresh)))
       = map (page_request (table_env replies_without_p2)) three_pages
   \<and> map lvl (new_records fresh (snd (map_cell (table_env replies_without_p2) three_pages fresh)))
       = map reply_level
           (new_calls fresh (snd (map_cell (table_env replies_without_p2) three_pages fresh)))
   \<and> length (failed_calls
        (new_calls fresh (snd (map_cell (table_env replies_without_p2) three_pages fresh)))) = 1
   \<and> length (map_summaries (snd (map_cell (table_env replies_without_p2) three_pages fresh))) + 1
       = length three_pages
   \<and> map_prompt (table_env replies_without_p2) [(''content'', ''p1'')] = Inr ''map 150: p1''
   \<and> get_chat_response (table_env replies_without_p2) (calls fresh) (map_request ''map 150: p1'')
       = Inr ''S1''
   \<and> fst (map_cell (table_env replies_without_p2)
        ((1, [(''content'', ''p1'')]) # [(2, [(''content'', ''p2'')])]) fresh) = None
   \<and> summary (fresh\<lparr>summary := Some ''an earlier summary''\<rparr>) \<noteq> None
   \<and> fst (map_cell (table_env []) three_pages (fresh\<lparr>summary := Some ''an earlier summary''\<rparr>))
       = None
   \<and> fst (map_try (table_env []) 2 [(''content'', ''p2'')]
        (fresh\<lparr>summary := Some ''an earlier summary''\<rparr>)) = Some (ProviderError ''no reply'')
   \<and> map_summaries (snd (map_step (table_env []) (2, [(''content'', ''p2'')])
        (fresh\<lparr>summary := Some ''an earlier summary''\<rparr>)))
       = map_summaries (fresh\<lparr>summary := Some ''an earlier summary''\<rparr>)
   \<and> map lvl (new_records (fresh\<lparr>summary := Some ''an earlier summary''\<rparr>)
        (snd (map_step (table_env []) (2, [(''content'', ''p2'')])
           (fresh\<lparr>summary := Some ''an earlier summary''\<rparr>)))) = [ERROR]"
proof -
  let ?E1 = "table_env all_replies"
  let ?E2 = "table_env replies_without_p2"
  let ?E3 = "table_env []"
  let ?t = "fresh\<lparr>summary := Some ''an earlier summary''\<rparr>"
  have h1: "fst (map_cell ?E1 three_pages fresh) = None"
    by code_simp
  have h2: "\<forall>item\<in>set three_pages. \<not> isl (map_prompt ?E1 (snd item))"
    by code_simp
  have h3: "\<forall>c\<in>set (new_calls fresh (snd (map_cell ?E1 three_pages fresh))). \<not> isl (snd c)"
    by code_simp
  have h4: "fst (map_cell ?E2 three_pages fresh) = None"
    by code_simp
  have h5: "\<forall>item\<in>set three_pages. \<not> isl (map_prompt ?E2 (snd item))"
    by code_simp
  have f: "length (failed_calls (new_calls fresh (snd (map_cell ?E2 three_pages fresh)))) = 1"
    by code_simp
  have p1: "map_prompt ?E2 [(''content'', ''p1'')] = Inr ''map 150: p1''"
    by code_simp
  have r1: "get_chat_response ?E2 (calls fresh) (map_request ''map 150: p1'') = Inr ''S1''"
    by code_simp
  have st: "summary ?t = Some ''an earlier summary''"
    by simp
  have ft: "fst (map_try ?E3 2 [(''content'', ''p2'')] ?t) = Some (ProviderError ''no reply'')"
    by code_simp
  have a: "map logged_page (new_records fresh (snd (map_cell ?E1 three_pages fresh)))
       = map (\<lambda>item. Some (fst item)) three_pages
     \<and> length (map_summaries (snd (map_cell ?E1 three_pages fresh))) = length three_pages"
    using map_cell_one_record_per_page [of ?E1 three_pages fresh] h1 h2 h3 by blast
  have b: "map_summaries (snd (map_cell ?E2 three_pages fresh))
       = successes (new_records fresh (snd (map_cell ?E2 three_pages fresh)))
     \<and> map_summaries (snd (map_cell ?E2 three_pages fresh))
       = returned (new_calls fresh (snd (map_cell ?E2 three_pages fresh)))
     \<and> map (\<lambda>c. Some (fst c)) (new_calls fresh (snd (map_cell ?E2 three_pages fresh)))
       = map (page_request ?E2) three_pages
     \<and> map lvl (new_records fresh (snd (map_cell ?E2 three_pages fresh)))
       = map reply_level (new_calls fresh (snd (map_cell ?E2 three_pages fresh)))
     \<and> length (map_summaries (snd (map_cell ?E2 three_pages fresh)))
        + length (failed_calls (new_calls fresh (snd (map_cell ?E2 three_pages fresh))))
       = length three_pages
     \<and> fst (map_cell ?E2 ((1, [(''content'', ''p1'')]) # [(2, [(''content'', ''p2'')])]) fresh) = None"
    using map_cell_one_record_per_page [where env = ?E2 and pages = three_pages and s = fresh
        and entry = "[(''content'', ''p1'')]" and p = "''map 150: p1''" and r = "''S1''"
        and page = 1 and rest = "[(2, [(''content'', ''p2'')])]"] h4 h5 p1 r1
    by blast
  have "length (map_summaries (snd (map_cell ?E2 three_pages fresh)))
        + length (failed_calls (new_calls fresh (snd (map_cell ?E2 three_pages fresh))))
       = length three_pages"
    using b by blast
  then have c: "length (map_summaries (snd (map_cell ?E2 three_pages fresh))) + 1 = length three_pages"
    using f by presburger
  have d: "fst (map_cell ?E3 three_pages ?t) = None
     \<and> map_summaries (snd (map_step ?E3 (2, [(''content'', ''p2'')]) ?t)) = map_summaries ?t
     \<and> map lvl (new_records ?t (snd (map_step ?E3 (2, [(''content'', ''p2'')]) ?t))) = [ERROR]"
    using map_cell_one_record_per_page [where env = ?E3 and pages = three_pages and s = ?t and t = ?t
        and v = "''an earlier summary''" and failed_page = 2
        and failed_entry = "[(''content'', ''p2'')]" and e = "ProviderError ''no reply''"] st ft
    by simp
  have st': "summary ?t \<noteq> None"
    by simp
  have l2: "list_all (\<lambda>item. \<not> isl (map_prompt ?E1 (snd item))) three_pages"
    using h2 by (simp add: list_all_iff)
  have l3: "list_all (\<lambda>c. \<not> isl (snd c)) (new_calls fresh (snd (map_cell ?E1 three_pages fresh)))"
    using h3 by (simp add: list_all_iff)
  have l5: "list_all (\<lambda>item. \<not> isl (map_prompt ?E2 (snd item))) three_pages"
    using h5 by (simp add: list_all_iff)
  show ?thesis
    using h1 l2 l3 h4 l5 f p1 r1 st' ft a b c d by blast
qed

text \<open>
  C1 as stated fails: of three pages of which the second fails, the cell keeps two
  results, not three, and nothing in the result stands for the second page.
\<close>

theorem map_cell_drops_failed_page:
  "fst (map_cell (table_env replies_without_p2) three_pages fresh) = None
   \<and> map_summaries (snd (map_cell (table_env replies_without_p2) three_pages fresh))
       = [''S1'', ''S3'']
   \<and> length (map_summaries (snd (map_cell (table_env replies_without_p2) three_pages fresh)))
       \<noteq> length three_pages"
  by code_simp

text \<open>
  C2, amended. When \<^verbatim>\<open>map_summaries\<close> is empty the reduce step does not stop: the text is
  the empty string, no exception leaves the step, the prompt built from the empty text
  is sent to the completion service in one call, and when the service answers, the output
  holds that answer as \<^verbatim>\<open>final_summary\<close> next to an empty \<^verbatim>\<open>map_summaries\<close>.
\<close>

theorem reduce_step_on_no_summaries:
  "(map_summaries s = [] \<longrightarrow>
      fst (reduce_step env s) = None \<and> text_var (snd (reduce_step env s)) = Some [])
   \<and> (map_summaries s = []
      \<and> build_prompt env (REDUCE_SUMMARY_PROMPT_TPL env)
          [(''text'', TextArg []), (''max_words'', IntArg REDUCE_MAX_WORDS)] = Inr p
    \<longrightarrow> new_calls s (snd (reduce_step env s))
        = [(reduce_request p, get_chat_response env (calls s) (reduce_request p))])
   \<and> (map_summaries s = []
      \<and> build_prompt env (REDUCE_SUMMARY_PROMPT_TPL env)
          [(''text'', TextArg []), (''max_words'', IntArg REDUCE_MAX_WORDS)] = Inr p
      \<and> get_chat_response env (calls s) (reduce_request p) = Inr r
    \<longrightarrow> output_var (snd (reduce_step env s))
        = Some [(''final_summary'', PStr r), (''map_summaries'', PStrList [])])"
proof -
  have empty_text: "map_summaries s = [] \<Longrightarrow>
      fst (reduce_step env s) = None \<and> text_var (snd (reduce_step env s)) = Some []"
    by (cases rule: reduce_cell_cases [of env "join_cell s"])
       (simp_all add: reduce_step_prompt_fails reduce_step_call_fails reduce_step_call_returns
          reduce_text_Nil)
  have p: "reduce_prompt env (join_cell s) = Inr p"
    if "map_summaries s = []" and "build_prompt env (REDUCE_SUMMARY_PROMPT_TPL env)
          [(''text'', TextArg []), (''max_words'', IntArg REDUCE_MAX_WORDS)] = Inr p"
    using that by (simp add: reduce_prompt_join reduce_text_Nil)
  have called: "new_calls s (snd (reduce_step env s))
        = [(reduce_request p, get_chat_response env (calls s) (reduce_request p))]"
    if "reduce_prompt env (join_cell s) = Inr p"
    by (cases "get_chat_response env (calls s) (reduce_request p)")
       (simp_all add: reduce_step_call_fails [OF that] reduce_step_call_returns [OF that]
          new_calls_def)
  have out: "output_var (snd (reduce_step env s))
        = Some [(''final_summary'', PStr r), (''map_summaries'', PStrList [])]"
    if "map_summaries s = []" and "reduce_prompt env (join_cell s) = Inr p"
      and "get_chat_response env (calls s) (reduce_request p) = Inr r"
    using that by (simp add: reduce_step_call_returns)
  show ?thesis
    using empty_text p called out by blast
qed

theorem reduce_step_on_no_summaries_witness:
  "map_summaries fresh = []
   \<and> build_prompt (table_env empty_input_replies)
        (REDUCE_SUMMARY_PROMPT_TPL (table_env empty_input_replies))
        [(''text'', TextArg []), (''max_words'', IntArg REDUCE_MAX_WORDS)] = Inr ''reduce 300: ''
   \<and> get_chat_response (table_env empty_input_replies) (calls fresh)
        (reduce_request ''reduce 300: '') = Inr ''FINAL''
   \<and> fst (reduce_step (table_env empty_input_replies) fresh) = None
   \<and> text_var (snd (reduce_step (table_env empty_input_replies) fresh)) = Some []
   \<and> new_calls fresh (snd (reduce_step (table_env empty_input_replies) fresh))
       = [(reduce_request ''reduce 300: '', Inr ''FINAL'')]
   \<and> output_var (snd (reduce_step (table_env empty_input_replies) fresh))
       = Some [(''final_summary'', PStr ''FINAL''), (''map_summaries'', PStrList [])]"
proof -
  have h1: "map_summaries fresh = []"
    by (simp add: fresh_def)
  have h2: "build_prompt (table_env empty_input_replies)
        (REDUCE_SUMMARY_PROMPT_TPL (table_env empty_input_replies))
        [(''text'', TextArg []), (''max_words'', IntArg REDUCE_MAX_WORDS)] = Inr ''reduce 300: ''"
    by code_simp
  have h3: "get_chat_response (table_env empty_input_replies) (calls fresh)
        (reduce_request ''reduce 300: '') = Inr ''FINAL''"
    by code_simp
  show ?thesis
    using reduce_step_on_no_summaries [of fresh "table_env empty_input_replies" "''reduce 300: ''" "''FINAL''"] h1 h2 h3
    by simp
qed

text \<open>
  C2 as stated fails: with no summaries at all the reduce step raises nothing, calls the
  completion service and assigns an output.
\<close>

theorem reduce_step_calls_on_no_summaries:
  "map_summaries fresh = []
   \<and> reduce_step (table_env empty_input_replies) fresh =
      (None, fresh\<lparr>text_var := Some [], printed := [[]],
         calls := [(reduce_request ''reduce 300: '', Inr ''FINAL'')],
         final_summary := Some ''FINAL'',
         logged := [LogRecord INFO (''Final Reduce Summary:'' @ [NL] @ ''%s'') [PStr ''FINAL'']],
         output_var := Some [(''final_summary'', PStr ''FINAL''), (''map_summaries'', PStrList [])]\<rparr>)"
  by code_simp

text \<open>
  C3, amended. The text sent to the reducer is the map summaries in list order joined by
  a single newline, from which every doubled newline is then removed, both characters, not
  collapsed to one. So the text holds no doubled newline, every character that is not a
  newline is kept in order, and when no summary is empty or holds a newline the text is
  exactly the join by single newlines. For the summaries \<open>A\<close> and \<open>B\<close>, newline, newline,
  \<open>C\<close> the text is \<open>A\<close>, newline, \<open>BC\<close>. That text is what the reduce prompt is built from.
\<close>

theorem reduce_text_removes_doubled_newlines:
  "\<not> has_double_newline (reduce_text ms)
   \<and> filter (\<lambda>c. c \<noteq> NL) (reduce_text ms) = concat (map (filter (\<lambda>c. c \<noteq> NL)) ms)
   \<and> ((\<forall>m\<in>set ms. m \<noteq> [] \<and> NL \<notin> set m) \<longrightarrow> reduce_text ms = py_join [NL] ms)
   \<and> reduce_text [''A'', [CHR ''B'', NL, NL, CHR ''C'']] = [CHR ''A'', NL, CHR ''B'', CHR ''C'']
   \<and> reduce_prompt env (join_cell s) =
       build_prompt env (REDUCE_SUMMARY_PROMPT_TPL env)
         [(''text'', TextArg (reduce_text (map_summaries s))),
          (''max_words'', IntArg REDUCE_MAX_WORDS)]"
proof -
  have ex: "reduce_text [''A'', [CHR ''B'', NL, NL, CHR ''C'']] = [CHR ''A'', NL, CHR ''B'', CHR ''C'']"
    by (simp add: reduce_text_def py_replace_def)
  show ?thesis
    using ex
    by (simp add: reduce_text_def py_replace_newlines drop_double_newlines_clean
        drop_double_newlines_others filter_py_join py_join_clean drop_double_newlines_id
        reduce_prompt_def)
qed

theorem reduce_text_removes_doubled_newlines_witness:
  "list_all (\<lambda>m. m \<noteq> [] \<and> NL \<notin> set m) [''S1'', ''S2'']
   \<and> reduce_text [''S1'', ''S2''] = py_join [NL] [''S1'', ''S2'']
   \<and> \<not> has_double_newline (reduce_text [''S1'', ''S2''])"
  using reduce_text_removes_doubled_newlines [of "[''S1'', ''S2'']"] by simp

text \<open>
  C3 as stated fails: for the summaries \<open>A\<close> and \<open>B\<close>, newline, newline, \<open>C\<close> the text is
  not \<open>A\<close>, newline, \<open>B\<close>, newline, \<open>C\<close>.
\<close>

theorem reduce_text_join_example:
  "reduce_text [''A'', [CHR ''B'', NL, NL, CHR ''C'']] \<noteq> [CHR ''A'', NL, CHR ''B'', NL, CHR ''C'']
   \<and> text_var (join_cell (fresh\<lparr>map_summaries := [''A'', [CHR ''B'', NL, NL, CHR ''C'']]\<rparr>))
       = Some [CHR ''A'', NL, CHR ''B'', CHR ''C'']"
  by code_simp

text \<open>
  C4. The cleaning of the joined map summaries handles one level of doubled newlines:
  it is one pass from the left that replaces each occurrence of the two characters
  newline, newline by the empty string. Nothing else is normalised: a run of \<open>n\<close>
  newlines is left with \<open>n mod 2\<close> of them, every character that is not a newline stays
  where it is, and a text without two newlines in a row is not changed at all, whatever
  other white space it holds.
\<close>

theorem newline_cleaning_one_level:
  "reduce_text ms = drop_double_newlines (py_join [NL] ms)
   \<and> py_replace (replicate n NL) [NL, NL] [] = replicate (n mod 2) NL
   \<and> filter (\<lambda>c. c \<noteq> NL) (py_replace t [NL, NL] []) = filter (\<lambda>c. c \<noteq> NL) t
   \<and> (\<not> has_double_newline t \<longrightarrow> py_replace t [NL, NL] [] = t)"
  by (simp add: reduce_text_def py_replace_newlines drop_double_newlines_run
      drop_double_newlines_others drop_double_newlines_id)

theorem newline_cleaning_one_level_witness:
  "reduce_text [''ab'', [NL, CHR ''c'']] = drop_double_newlines (py_join [NL] [''ab'', [NL, CHR ''c'']])
   \<and> py_replace (replicate 3 NL) [NL, NL] [] = replicate (3 mod 2) NL
   \<and> \<not> has_double_newline [CHR ''a'', CHR '' '', CHR '' '', NL, CHR 0x09, NL, CHR ''b'']
   \<and> py_replace [CHR ''a'', CHR '' '', CHR '' '', NL, CHR 0x09, NL, CHR ''b''] [NL, NL] []
       = [CHR ''a'', CHR '' '', CHR '' '', NL, CHR 0x09, NL, CHR ''b'']"
  using newline_cleaning_one_level
    [of "[''ab'', [NL, CHR ''c'']]" 3 "[CHR ''a'', CHR '' '', CHR '' '', NL, CHR 0x09, NL, CHR ''b'']"]
  by simp

text \<open>
  C5, amended. On a fully successful run (the Map-Step cell runs to its end, the reduce
  prompt is built and the reducer answers) no exception leaves the run and the output is a
  dictionary of exactly two fields: \<^verbatim>\<open>final_summary\<close>, the reducer's answer, and
  \<^verbatim>\<open>map_summaries\<close>, the list the Map-Step cell built. There is no field
  \<^verbatim>\<open>failed_chunks\<close>: reading it raises \<^verbatim>\<open>KeyError\<close>. For three pages summarised as \<open>S1\<close>,
  \<open>S2\<close>, \<open>S3\<close> and a reducer that answers \<open>FINAL\<close>, the output is \<open>FINAL\<close> with the
  three summaries.
\<close>

theorem run_all_output_two_fields:
  "map_cell env pages s = (None, s1) \<and> reduce_prompt env (join_cell s1) = Inr p
    \<and> get_chat_response env (calls s1) (reduce_request p) = Inr r
   \<longrightarrow> fst (run_all env pages s) = None
     \<and> output_var (snd (run_all env pages s))
         = Some [(''final_summary'', PStr r), (''map_summaries'', PStrList (map_summaries s1))]
     \<and> output_field (snd (run_all env pages s)) ''failed_chunks'' = Inl (KeyError ''failed_chunks'')"
proof
  assume a: "map_cell env pages s = (None, s1) \<and> reduce_prompt env (join_cell s1) = Inr p
    \<and> get_chat_response env (calls s1) (reduce_request p) = Inr r"
  then have "run_all env pages s = reduce_step env s1"
    by (simp add: run_all_def)
  then show "fst (run_all env pages s) = None
     \<and> output_var (snd (run_all env pages s))
         = Some [(''final_summary'', PStr r), (''map_summaries'', PStrList (map_summaries s1))]
     \<and> output_field (snd (run_all env pages s)) ''failed_chunks'' = Inl (KeyError ''failed_chunks'')"
    using a reduce_step_call_returns [of env s1 p r]
    by (simp add: output_field_def py_getitem_def)
qed

theorem run_all_output_two_fields_witness:
  "map_cell (table_env all_replies) three_pages fresh
     = (None, snd (map_cell (table_env all_replies) three_pages fresh))
   \<and> reduce_prompt (table_env all_replies)
        (join_cell (snd (map_cell (table_env all_replies) three_pages fresh)))
       = Inr (''reduce 300: S1'' @ [NL] @ ''S2'' @ [NL] @ ''S3'')
   \<and> get_chat_response (table_env all_replies)
        (calls (snd (map_cell (table_env all_replies) three_pages fresh)))
        (reduce_request (''reduce 300: S1'' @ [NL] @ ''S2'' @ [NL] @ ''S3'')) = Inr ''FINAL''
   \<and> fst (run_all (table_env all_replies) three_pages fresh) = None
   \<and> output_var (snd (run_all (table_env all_replies) three_pages fresh))
       = Some [(''final_summary'', PStr ''FINAL''),
               (''map_summaries'', PStrList [''S1'', ''S2'', ''S3''])]"
proof -
  have h1: "map_cell (table_env all_replies) three_pages fresh
     = (None, snd (map_cell (table_env all_replies) three_pages fresh))"
    by code_simp
  have h2: "reduce_prompt (table_env all_replies)
        (join_cell (snd (map_cell (table_env all_replies) three_pages fresh)))
       = Inr (''reduce 300: S1'' @ [NL] @ ''S2'' @ [NL] @ ''S3'')"
    by code_simp
  have h3: "get_chat_response (table_env all_replies)
        (calls (snd (map_cell (table_env all_replies) three_pages fresh)))
        (reduce_request (''reduce 300: S1'' @ [NL] @ ''S2'' @ [NL] @ ''S3'')) = Inr ''FINAL''"
    by code_simp
  have m: "map_summaries (snd (map_cell (table_env all_replies) three_pages fresh))
       = [''S1'', ''S2'', ''S3'']"
    by code_simp
  show ?thesis
    using run_all_output_two_fields [of "table_env all_replies" three_pages fresh
        "snd (map_cell (table_env all_replies) three_pages fresh)"
        "''reduce 300: S1'' @ [NL] @ ''S2'' @ [NL] @ ''S3''" "''FINAL''"] h1 h2 h3 m
    by simp
qed

text \<open>
  C5 as stated fails: in the end-to-end scenario the output has the final summary and the
  three map summaries, and no field \<^verbatim>\<open>failed_chunks\<close>.
\<close>

theorem run_all_output_has_no_failed_chunks:
  "output_var (snd (run_all (table_env all_replies) three_pages fresh))
     = Some [(''final_summary'', PStr ''FINAL''),
             (''map_summaries'', PStrList [''S1'', ''S2'', ''S3''])]
   \<and> output_field (snd (run_all (table_env all_replies) three_pages fresh)) ''failed_chunks''
     = Inl (KeyError ''failed_chunks'')"
  by code_simp

text \<open>
  C6, amended. If the single consolidation call fails, the exception is caught and logged
  with its detail, and nothing is raised to the caller; no output is assigned, and
  \<^verbatim>\<open>map_summaries\<close> (like \<^verbatim>\<open>final_summary\<close> and an output of an earlier run) is left as
  it was, available for another attempt.
\<close>

theorem reduce_failure_is_logged:
  "reduce_prompt env (join_cell s) = Inr p
    \<and> get_chat_response env (calls s) (reduce_request p) = Inl e
   \<longrightarrow> fst (reduce_step env s) = None
     \<and> output_var (snd (reduce_step env s)) = output_var s
     \<and> final_summary (snd (reduce_step env s)) = final_summary s
     \<and> map_summaries (snd (reduce_step env s)) = map_summaries s
     \<and> new_records s (snd (reduce_step env s))
         = [LogRecord ERROR ''An error occured while generating final summary: %s'' [PExn e]]"
proof
  assume a: "reduce_prompt env (join_cell s) = Inr p
    \<and> get_chat_response env (calls s) (reduce_request p) = Inl e"
  show "fst (reduce_step env s) = None
     \<and> output_var (snd (reduce_step env s)) = output_var s
     \<and> final_summary (snd (reduce_step env s)) = final_summary s
     \<and> map_summaries (snd (reduce_step env s)) = map_summaries s
     \<and> new_records s (snd (reduce_step env s))
         = [LogRecord ERROR ''An error occured while generating final summary: %s'' [PExn e]]"
    using a reduce_step_call_fails [of env s p e] by (simp add: new_records_def)
qed

theorem reduce_failure_is_logged_witness:
  "reduce_prompt (table_env map_replies_only) (join_cell (fresh\<lparr>map_summaries := [''S1'', ''S2'']\<rparr>))
       = Inr (''reduce 300: S1'' @ [NL] @ ''S2'')
   \<and> get_chat_response (table_env map_replies_only)
        (calls (fresh\<lparr>map_summaries := [''S1'', ''S2'']\<rparr>))
        (reduce_request (''reduce 300: S1'' @ [NL] @ ''S2'')) = Inl (ProviderError ''no reply'')
   \<and> fst (reduce_step (table_env map_replies_only) (fresh\<lparr>map_summaries := [''S1'', ''S2'']\<rparr>)) = None
   \<and> output_var (snd (reduce_step (table_env map_replies_only)
        (fresh\<lparr>map_summaries := [''S1'', ''S2'']\<rparr>))) = None
   \<and> map_summaries (snd (reduce_step (table_env map_replies_only)
        (fresh\<lparr>map_summaries := [''S1'', ''S2'']\<rparr>))) = [''S1'', ''S2'']
   \<and> new_records (fresh\<lparr>map_summaries := [''S1'', ''S2'']\<rparr>)
        (snd (reduce_step (table_env map_replies_only) (fresh\<lparr>map_summaries := [''S1'', ''S2'']\<rparr>)))
       = [LogRecord ERROR ''An error occured while generating final summary: %s''
            [PExn (ProviderError ''no reply'')]]"
proof -
  have h1: "reduce_prompt (table_env map_replies_only)
        (join_cell (fresh\<lparr>map_summaries := [''S1'', ''S2'']\<rparr>))
       = Inr (''reduce 300: S1'' @ [NL] @ ''S2'')"
    by code_simp
  have h2: "get_chat_response (table_env map_replies_only)
        (calls (fresh\<lparr>map_summaries := [''S1'', ''S2'']\<rparr>))
        (reduce_request (''reduce 300: S1'' @ [NL] @ ''S2'')) = Inl (ProviderError ''no reply'')"
    by code_simp
  show ?thesis
    using reduce_failure_is_logged [of "table_env map_replies_only" "fresh\<lparr>map_summaries := [''S1'', ''S2'']\<rparr>"
        "''reduce 300: S1'' @ [NL] @ ''S2''" "ProviderError ''no reply''"] h1 h2
    by (simp add: fresh_def)
qed

text \<open>
  C6 as stated fails: when the reducer's call fails after three pages were summarised, no
  exception leaves the run.
\<close>

theorem reduce_failure_not_raised:
  "fst (run_all (table_env map_replies_only) three_pages fresh) = None
   \<and> new_calls (snd (map_cell (table_env map_replies_only) three_pages fresh))
        (snd (run_all (table_env map_replies_only) three_pages fresh))
      = [(reduce_request (''reduce 300: S1'' @ [NL] @ ''S2'' @ [NL] @ ''S3''),
          Inl (ProviderError ''no reply''))]"
  by code_simp

text \<open>
  C7. Template binding fails with \<^verbatim>\<open>TemplateError\<close> whenever the template refers to a
  placeholder that has no binding (the error names such a placeholder), and ignores
  bindings the template does not refer to: two sets of bindings that agree on the
  placeholders of the template give the same result, and when every placeholder is bound
  the binding succeeds. In particular binding \<open>Hello {name}\<close> with no bindings fails with
  \<^verbatim>\<open>TemplateError\<close>, and with \<open>name\<close> bound to \<open>Ada\<close> and \<open>extra\<close> bound to \<open>ignored\<close> it
  returns \<open>Hello Ada\<close>.
\<close>

theorem bind_strict_on_missing:
  "(n \<in> set (placeholders template) \<and> map_of bindings n = None
     \<longrightarrow> (\<exists>m. bind template bindings = Inl (TemplateError m)
             \<and> m \<in> set (placeholders template) \<and> map_of bindings m = None))
   \<and> ((\<forall>k\<in>set (placeholders template). map_of bindings k = map_of bindings' k)
     \<longrightarrow> bind template bindings = bind template bindings')
   \<and> ((\<forall>k\<in>set (placeholders template). map_of bindings k \<noteq> None)
     \<longrightarrow> (\<exists>out. bind template bindings = Inr out))
   \<and> bind ''Hello {name}'' [] = Inl (TemplateError ''name'')
   \<and> bind ''Hello {name}'' [(''name'', TextArg ''Ada''), (''extra'', TextArg ''ignored'')]
       = Inr ''Hello Ada''"
proof -
  have a: "bind ''Hello {name}'' [] = Inl (TemplateError ''name'')"
    by (simp add: bind_def)
  have b: "bind ''Hello {name}'' [(''name'', TextArg ''Ada''), (''extra'', TextArg ''ignored'')]
       = Inr ''Hello Ada''"
    by (simp add: bind_def)
  show ?thesis
    unfolding bind_def placeholders_def
    using a b fill_missing [of n "pieces None template" bindings]
      fill_agree [of "pieces None template" bindings bindings']
      fill_bound [of "pieces None template" bindings]
    unfolding bind_def
    by blast
qed

theorem bind_strict_on_missing_witness:
  "''name'' \<in> set (placeholders ''Hello {name}'') \<and> map_of ([] :: (string \<times> arg) list) ''name'' = None
   \<and> (\<exists>m. bind ''Hello {name}'' [] = Inl (TemplateError m))
   \<and> list_all (\<lambda>k. map_of [(''name'', TextArg ''Ada'')] k
           = map_of [(''name'', TextArg ''Ada''), (''extra'', TextArg ''ignored'')] k)
        (placeholders ''Hello {name}'')
   \<and> list_all (\<lambda>k. map_of [(''name'', TextArg ''Ada'')] k \<noteq> None)
        (placeholders ''Hello {name}'')
   \<and> bind ''Hello {name}'' [(''name'', TextArg ''Ada'')]
       = bind ''Hello {name}'' [(''name'', TextArg ''Ada''), (''extra'', TextArg ''ignored'')]
   \<and> (\<exists>out. bind ''Hello {name}'' [(''name'', TextArg ''Ada'')] = Inr out)"
proof -
  have p: "placeholders ''Hello {name}'' = [''name'']"
    by (simp add: placeholders_def)
  show ?thesis
    using bind_strict_on_missing [of "''name''" "''Hello {name}''" "[]" "[]"]
      bind_strict_on_missing [of "''name''" "''Hello {name}''" "[(''name'', TextArg ''Ada'')]"
             "[(''name'', TextArg ''Ada''), (''extra'', TextArg ''ignored'')]"] p
    by simp
qed




text \<open>
  C9. For every chunk whose call of the completion service succeeds, the summary kept in
  \<^verbatim>\<open>map_summaries\<close> is exactly the text the service returned: the list built by the
  Map-Step cell is the list of the texts returned by the calls the cell made, in order,
  with nothing cut off, whatever \<^verbatim>\<open>MAP_MAX_WORDS\<close> is. The reduce step does not touch the
  list, and the output it assigns holds that same list under \<^verbatim>\<open>map_summaries\<close>.
\<close>

theorem map_summaries_are_the_returned_texts:
  "map_summaries (snd (map_cell env pages s)) =
     returned (drop (length (calls s)) (calls (snd (map_cell env pages s))))
   \<and> map_summaries (snd (reduce_step env s)) = map_summaries s
   \<and> (output_var (snd (reduce_step env s)) = output_var s \<or>
      (\<exists>r. output_var (snd (reduce_step env s)) =
        Some [(''final_summary'', PStr r), (''map_summaries'', PStrList (map_summaries s))]))"
  using map_cell_keeps_returned [of env pages s] reduce_cell_map_summaries [of env "join_cell s"]
    reduce_cell_output [of env "join_cell s"]
  by (simp add: reduce_step_def)

theorem map_summaries_are_the_returned_texts_witness:
  "map_summaries (snd (map_cell (table_env replies_without_p2) three_pages fresh)) = [''S1'', ''S3'']
   \<and> returned (drop (length (calls fresh))
        (calls (snd (map_cell (table_env replies_without_p2) three_pages fresh)))) = [''S1'', ''S3'']"
proof -
  have m: "map_summaries (snd (map_cell (table_env replies_without_p2) three_pages fresh))
      = [''S1'', ''S3'']"
    by code_simp
  show ?thesis
    using map_summaries_are_the_returned_texts [of "table_env replies_without_p2" three_pages fresh] m
    by simp
qed

text \<open>
  C10. The handler of the Map-Step loop logs the variable \<^verbatim>\<open>summary\<close>, not the exception
  it caught. If \<^verbatim>\<open>summary\<close> is not bound and the call for the first page fails, the
  handler raises \<^verbatim>\<open>NameError\<close>, which leaves the cell: no other page is processed and
  nothing is logged. If the call for a page succeeds and the call for the next page fails,
  the error record of the failed page carries the summary of the page before it. In
  general, when \<^verbatim>\<open>summary\<close> is bound and a page fails, the error record carries the value of
  \<^verbatim>\<open>summary\<close>, whatever the exception was.
\<close>

theorem error_handler_reads_summary:
  "(summary s = None \<and> map_prompt env entry = Inr p
      \<and> get_chat_response env (calls s) (map_request p) = Inl e
    \<longrightarrow> map_cell env ((page, entry) # rest) s =
        (Some (NameError ''summary''),
         s\<lparr>map_summaries := [], calls := calls s @ [(map_request p, Inl e)]\<rparr>))
   \<and> (map_prompt env entry1 = Inr p1
      \<and> get_chat_response env (calls s) (map_request p1) = Inr r1
      \<and> map_prompt env entry2 = Inr p2
      \<and> get_chat_response env (calls s @ [(map_request p1, Inr r1)]) (map_request p2) = Inl e2
    \<longrightarrow> map_cell env ((page1, entry1) # (page2, entry2) # others) s =
        map_loop env others
          (s\<lparr>map_summaries := [r1], summary := Some r1,
             calls := calls s @ [(map_request p1, Inr r1), (map_request p2, Inl e2)],
             logged := logged s @
               [LogRecord INFO ''Map Summary #%d: %s'' [PInt page1, PStr r1],
                LogRecord ERROR ''An error occured while generating summary #%d: %s''
                  [PInt page2, PStr r1]]\<rparr>))
   \<and> (summary t = Some v \<and> fst (map_try env page3 entry3 t) = Some e3
    \<longrightarrow> fst (map_step env (page3, entry3) t) = None
      \<and> logged (snd (map_step env (page3, entry3) t)) = logged t @
           [LogRecord ERROR ''An error occured while generating summary #%d: %s''
              [PInt page3, PStr v]])"
proof (intro conjI impI)
  assume a: "summary s = None \<and> map_prompt env entry = Inr p
      \<and> get_chat_response env (calls s) (map_request p) = Inl e"
  let ?s0 = "s\<lparr>map_summaries := []\<rparr>"
  have "map_try env page entry ?s0 = (Some e, ?s0\<lparr>calls := calls ?s0 @ [(map_request p, Inl e)]\<rparr>)"
    using a by (intro map_try_call_fails) simp_all
  then have "map_step env (page, entry) ?s0
      = (Some (NameError ''summary''), ?s0\<lparr>calls := calls ?s0 @ [(map_request p, Inl e)]\<rparr>)"
    using a by (intro map_step_raises) simp_all
  then show "map_cell env ((page, entry) # rest) s =
        (Some (NameError ''summary''),
         s\<lparr>map_summaries := [], calls := calls s @ [(map_request p, Inl e)]\<rparr>)"
    by (simp add: map_cell_def)
next
  assume a: "map_prompt env entry1 = Inr p1
      \<and> get_chat_response env (calls s) (map_request p1) = Inr r1
      \<and> map_prompt env entry2 = Inr p2
      \<and> get_chat_response env (calls s @ [(map_request p1, Inr r1)]) (map_request p2) = Inl e2"
  let ?s0 = "s\<lparr>map_summaries := []\<rparr>"
  let ?s1 = "?s0\<lparr>calls := calls ?s0 @ [(map_request p1, Inr r1)], summary := Some r1,
              map_summaries := map_summaries ?s0 @ [r1],
              logged := logged ?s0 @ [LogRecord INFO ''Map Summary #%d: %s'' [PInt page1, PStr r1]]\<rparr>"
  let ?s2 = "?s1\<lparr>calls := calls ?s1 @ [(map_request p2, Inl e2)]\<rparr>"
  let ?s3 = "?s2\<lparr>logged := logged ?s2 @
      [LogRecord ERROR ''An error occured while generating summary #%d: %s''
         [PInt (fst (page2, entry2)), PStr r1]]\<rparr>"
  have "map_try env page1 entry1 ?s0 = (None, ?s1)"
    using a by (intro map_try_call_returns) simp_all
  then have 1: "map_step env (page1, entry1) ?s0 = (None, ?s1)"
    by (intro map_step_succeeds) simp
  have "map_try env page2 entry2 ?s1 = (Some e2, ?s2)"
    using a by (intro map_try_call_fails) simp_all
  then have 2: "map_step env (page2, entry2) ?s1 = (None, ?s3)"
    by (intro map_step_logs_summary) simp_all
  have "map_cell env ((page1, entry1) # (page2, entry2) # others) s
      = map_loop env ((page1, entry1) # (page2, entry2) # others) ?s0"
    by (simp only: map_cell_def)
  also have "\<dots> = map_loop env ((page2, entry2) # others) ?s1"
    by (rule map_loop_continue [OF 1])
  also have "\<dots> = map_loop env others ?s3"
    by (rule map_loop_continue [OF 2])
  also have "?s3 = s\<lparr>map_summaries := [r1], summary := Some r1,
             calls := calls s @ [(map_request p1, Inr r1), (map_request p2, Inl e2)],
             logged := logged s @
               [LogRecord INFO ''Map Summary #%d: %s'' [PInt page1, PStr r1],
                LogRecord ERROR ''An error occured while generating summary #%d: %s''
                  [PInt page2, PStr r1]]\<rparr>"
    by (cases s) simp
  finally show "map_cell env ((page1, entry1) # (page2, entry2) # others) s =
        map_loop env others
          (s\<lparr>map_summaries := [r1], summary := Some r1,
             calls := calls s @ [(map_request p1, Inr r1), (map_request p2, Inl e2)],
             logged := logged s @
               [LogRecord INFO ''Map Summary #%d: %s'' [PInt page1, PStr r1],
                LogRecord ERROR ''An error occured while generating summary #%d: %s''
                  [PInt page2, PStr r1]]\<rparr>)" .
next
  assume a: "summary t = Some v \<and> fst (map_try env page3 entry3 t) = Some e3"
  obtain s1 where t: "map_try env page3 entry3 t = (Some e3, s1)"
    using a by (cases "map_try env page3 entry3 t") auto
  have s1: "summary s1 = Some v" "logged s1 = logged t"
    using map_try_fails_keeps [OF t] a by simp_all
  have st: "map_step env (page3, entry3) t = (None, s1\<lparr>logged := logged s1 @
      [LogRecord ERROR ''An error occured while generating summary #%d: %s''
         [PInt (fst (page3, entry3)), PStr v]]\<rparr>)"
    using t s1 by (intro map_step_logs_summary) simp_all
  show "fst (map_step env (page3, entry3) t) = None"
    using st by simp
  show "logged (snd (map_step env (page3, entry3) t)) = logged t @
           [LogRecord ERROR ''An error occured while generating summary #%d: %s''
              [PInt page3, PStr v]]"
    using st s1 by simp
qed

theorem error_handler_reads_summary_witness:
  "(summary fresh = None
    \<and> map_prompt (table_env replies_without_p2) [(''content'', ''p2'')] = Inr ''map 150: p2''
    \<and> get_chat_response (table_env replies_without_p2) (calls fresh) (map_request ''map 150: p2'')
        = Inl (ProviderError ''no reply'')
    \<and> map_cell (table_env replies_without_p2) ((2, [(''content'', ''p2'')]) # three_pages) fresh =
        (Some (NameError ''summary''),
         fresh\<lparr>map_summaries := [],
           calls := calls fresh @ [(map_request ''map 150: p2'', Inl (ProviderError ''no reply''))]\<rparr>))
   \<and> (map_prompt (table_env replies_without_p2) [(''content'', ''p1'')] = Inr ''map 150: p1''
    \<and> get_chat_response (table_env replies_without_p2) (calls fresh) (map_request ''map 150: p1'')
        = Inr ''S1''
    \<and> get_chat_response (table_env replies_without_p2)
          (calls fresh @ [(map_request ''map 150: p1'', Inr ''S1'')]) (map_request ''map 150: p2'')
        = Inl (ProviderError ''no reply'')
    \<and> map_cell (table_env replies_without_p2)
          [(1, [(''content'', ''p1'')]), (2, [(''content'', ''p2'')])] fresh =
        (None, fresh\<lparr>map_summaries := [''S1''], summary := Some ''S1'',
             calls := calls fresh @ [(map_request ''map 150: p1'', Inr ''S1''),
                        (map_request ''map 150: p2'', Inl (ProviderError ''no reply''))],
             logged := logged fresh @
               [LogRecord INFO ''Map Summary #%d: %s'' [PInt 1, PStr ''S1''],
                LogRecord ERROR ''An error occured while generating summary #%d: %s''
                  [PInt 2, PStr ''S1'']]\<rparr>))
   \<and> (summary (fresh\<lparr>summary := Some ''an earlier summary''\<rparr>) = Some ''an earlier summary''
    \<and> fst (map_try (table_env replies_without_p2) 2 [(''content'', ''p2'')]
           (fresh\<lparr>summary := Some ''an earlier summary''\<rparr>)) = Some (ProviderError ''no reply'')
    \<and> logged (snd (map_step (table_env replies_without_p2) (2, [(''content'', ''p2'')])
           (fresh\<lparr>summary := Some ''an earlier summary''\<rparr>))) =
        logged (fresh\<lparr>summary := Some ''an earlier summary''\<rparr>) @
           [LogRecord ERROR ''An error occured while generating summary #%d: %s''
              [PInt 2, PStr ''an earlier summary'']])"
proof -
  have p1: "map_prompt (table_env replies_without_p2) [(''content'', ''p1'')] = Inr ''map 150: p1''"
    by code_simp
  have p2: "map_prompt (table_env replies_without_p2) [(''content'', ''p2'')] = Inr ''map 150: p2''"
    by code_simp
  have a: "get_chat_response (table_env replies_without_p2) (calls fresh) (map_request ''map 150: p2'')
        = Inl (ProviderError ''no reply'')"
    by code_simp
  have b1: "get_chat_response (table_env replies_without_p2) (calls fresh) (map_request ''map 150: p1'')
        = Inr ''S1''"
    by code_simp
  have b2: "get_chat_response (table_env replies_without_p2)
          (calls fresh @ [(map_request ''map 150: p1'', Inr ''S1'')]) (map_request ''map 150: p2'')
        = Inl (ProviderError ''no reply'')"
    by code_simp
  have c: "fst (map_try (table_env replies_without_p2) 2 [(''content'', ''p2'')]
           (fresh\<lparr>summary := Some ''an earlier summary''\<rparr>)) = Some (ProviderError ''no reply'')"
    by code_simp
  have f: "summary fresh = None"
    by (simp add: fresh_def)
  show ?thesis
    using error_handler_reads_summary [where s = fresh and env = "table_env replies_without_p2"
        and entry = "[(''content'', ''p2'')]" and p = "''map 150: p2''"
        and e = "ProviderError ''no reply''" and page = 2 and rest = three_pages
        and ?entry1.0 = "[(''content'', ''p1'')]" and ?p1.0 = "''map 150: p1''" and ?r1.0 = "''S1''"
        and ?entry2.0 = "[(''content'', ''p2'')]" and ?p2.0 = "''map 150: p2''"
        and ?e2.0 = "ProviderError ''no reply''" and ?page1.0 = 1 and ?page2.0 = 2
        and others = "[]"
        and t = "fresh\<lparr>summary := Some ''an earlier summary''\<rparr>" and v = "''an earlier summary''"
        and ?page3.0 = 2 and ?entry3.0 = "[(''content'', ''p2'')]"
        and ?e3.0 = "ProviderError ''no reply''"]
      p1 p2 a b1 b2 c f
    by simp
qed

end
